theory Spec2Isabelle
  imports Complex_Main
begin

section \<open>Numbers, tensors and errors\<close>

text \<open>
  The advantage estimators and the trainer loop of the PPO/PRIME recipe
  (\<^verbatim>\<open>verl/trainer/ppo/core_algos.py\<close>, \<^verbatim>\<open>recipe/prime/prime_core_algos.py\<close>,
  \<^verbatim>\<open>verl/trainer/ppo/ray_trainer.py\<close>) are embedded as HOL functions.

  A torch tensor of shape (batch, length) is a list of rows. Its entries are modelled as
  exact real numbers: rounding of the machine floats is not part of the model. Where the
  float arithmetic of the source yields nan or an infinity (the mean of an empty
  selection, a division by zero of numpy or torch scalars) no real number stands for the
  result, and the model stops with \<open>NonFinite\<close>; where Python raises, the model returns
  the exception. The leave-one-out estimator is the exception: what it returns for equal
  rewards depends on the rounding, so its tensors hold float32 values, with nan and the
  infinities, and every operation on them is rounded. A 0/1 mask is a list of rows of booleans; the product of a tensor with
  a mask keeps the entries where the mask is set and is 0 elsewhere.
\<close>

datatype error =
    ValueError
  | ZeroDivisionError
  | IndexError
  | RuntimeError
  | NotImplementedError
  | NonFinite

type_synonym tensor = "real list list"
type_synonym mask = "bool list list"

text \<open>The last dimension of a two-dimensional tensor (\<^verbatim>\<open>t.shape[-1]\<close>, \<^verbatim>\<open>t.size(1)\<close>).\<close>

definition width :: "'a list list \<Rightarrow> nat" where
  "width t = (case t of [] \<Rightarrow> 0 | r # _ \<Rightarrow> length r)"

definition same_shape :: "'a list list \<Rightarrow> 'b list list \<Rightarrow> bool" where
  "same_shape a b = (map length a = map length b)"

text \<open>
  An elementwise operation of torch on two tensors. Tensors of different shapes that torch
  would still broadcast are not modelled: they are reported as torch reports shapes that
  do not fit.
\<close>

definition elementwise :: "('a \<Rightarrow> 'b \<Rightarrow> 'c) \<Rightarrow> 'a list list \<Rightarrow> 'b list list \<Rightarrow> error + 'c list list" where
  "elementwise f a b =
     (if same_shape a b then Inr (map2 (map2 f) a b) else Inl RuntimeError)"

text \<open>\<^verbatim>\<open>values * mask\<close> for a 0/1 mask.\<close>

definition times_mask :: "real \<Rightarrow> bool \<Rightarrow> real" where
  "times_mask v b = (if b then v else 0)"

text \<open>
  Python's \<^verbatim>\<open>row[-k:]\<close>: the last \<open>k\<close> entries, and the whole row when \<open>k\<close> is 0
  (\<^verbatim>\<open>-0\<close> is \<^verbatim>\<open>0\<close>) or exceeds the length.
\<close>

definition slice_last :: "nat \<Rightarrow> 'a list \<Rightarrow> 'a list" where
  "slice_last k row = (if k = 0 then row else drop (length row - k) row)"

text \<open>
  Modelled from the spec: \<^verbatim>\<open>verl.utils.torch_functional.masked_mean\<close> is not among the
  sources. It is the mean of the values over the positions where the mask is set, here
  along the last axis, one mean per row; a row whose mask is nowhere set divides zero by
  zero.
\<close>

definition masked_mean_row :: "real list \<Rightarrow> bool list \<Rightarrow> real option" where
  "masked_mean_row vs ms =
     (if count_list ms True = 0 then None
      else Some (sum_list (map2 times_mask vs ms) / real (count_list ms True)))"

text \<open>\<^verbatim>\<open>torch.mean(x, dim=0)\<close> of a vector with no nan entry; nan for the empty vector.\<close>

definition mean_list :: "real list \<Rightarrow> real option" where
  "mean_list xs = (if xs = [] then None else Some (sum_list xs / real (length xs)))"

text \<open>The values of a list of optional values, when none is missing.\<close>

fun those_all :: "'a option list \<Rightarrow> 'a list option" where
  "those_all [] = Some []"
| "those_all (None # _) = None"
| "those_all (Some x # xs) = (case those_all xs of None \<Rightarrow> None | Some ys \<Rightarrow> Some (x # ys))"

section \<open>KL controllers\<close>

text \<open>
  \<^verbatim>\<open>AdaptiveKLController\<close> and \<^verbatim>\<open>FixedKLController\<close>: the field \<^verbatim>\<open>value\<close> is the
  coefficient. \<^verbatim>\<open>update\<close> mutates the controller; the model returns the new one.
  In the adaptive update \<^verbatim>\<open>current_kl / target\<close> divides Python floats and raises for a
  zero target; the division by the horizon is of a numpy scalar, which does not raise.
\<close>

datatype kl_controller =
    AdaptiveKLController (kl_value: real) (target: real) (horizon: real)
  | FixedKLController (kl_value: real)

definition np_clip :: "real \<Rightarrow> real \<Rightarrow> real \<Rightarrow> real" where
  "np_clip a a_min a_max = min (max a a_min) a_max"

fun update :: "kl_controller \<Rightarrow> real \<Rightarrow> nat \<Rightarrow> error + kl_controller" where
  "update (AdaptiveKLController v tg h) current_kl n_steps =
     (if tg = 0 then Inl ZeroDivisionError
      else let proportional_error = np_clip (current_kl / tg - 1) (- 0.2) 0.2 in
        if h = 0 then Inl NonFinite
        else let mult = 1 + proportional_error * real n_steps / h in
          Inr (AdaptiveKLController (v * mult) tg h))"
| "update (FixedKLController v) current_kl n_steps = Inr (FixedKLController v)"

section \<open>KL penalty\<close>

definition kl_penalty :: "tensor \<Rightarrow> tensor \<Rightarrow> string \<Rightarrow> error + tensor" where
  "kl_penalty logprob ref_logprob pen =
     (if pen = ''kl'' then elementwise (\<lambda>a b. a - b) logprob ref_logprob
      else if pen = ''abs'' then elementwise (\<lambda>a b. \<bar>a - b\<bar>) logprob ref_logprob
      else if pen = ''mse'' then elementwise (\<lambda>a b. 0.5 * (a - b)\<^sup>2) logprob ref_logprob
      else if pen = ''full'' then Inl NotImplementedError
      else Inl NotImplementedError)"

text \<open>
  The fields of the batch that \<^verbatim>\<open>apply_kl_penalty\<close> reads and writes. A key that may be
  absent from \<^verbatim>\<open>data.batch\<close> is an optional field.
\<close>

record kl_batch =
  responses :: "int list list"
  token_level_scores :: tensor
  attention_mask :: mask
  old_log_probs :: tensor
  ref_log_prob :: "tensor option"
  token_level_rewards :: "tensor option"

record kl_metrics =
  critic_kl :: real
  critic_kl_coeff :: real

text \<open>\<^verbatim>\<open>masked_mean(kld, mask, axis=-1)\<close>, then the mean over the batch, then \<^verbatim>\<open>.item()\<close>.\<close>

definition batch_mean_kl :: "tensor \<Rightarrow> mask \<Rightarrow> error + real" where
  "batch_mean_kl kld response_mask =
     (if \<not> same_shape kld response_mask then Inl RuntimeError
      else case those_all (map2 masked_mean_row kld response_mask) of
             None \<Rightarrow> Inl NonFinite
           | Some per_seq \<Rightarrow>
               (case mean_list per_seq of None \<Rightarrow> Inl NonFinite | Some m \<Rightarrow> Inr m))"

text \<open>
  The effects of \<^verbatim>\<open>apply_kl_penalty\<close> are the new field of the batch and the updated
  controller; both are returned, with the metrics. An exception leaves neither.
\<close>

definition kl_finish ::
  "kl_batch \<Rightarrow> kl_controller \<Rightarrow> real \<Rightarrow> tensor \<Rightarrow> mask \<Rightarrow> error + kl_batch \<times> kl_controller \<times> kl_metrics" where
  "kl_finish data kl_ctrl beta kld response_mask =
     (case elementwise (\<lambda>s k. s - beta * k) (token_level_scores data) kld of
        Inl e \<Rightarrow> Inl e
      | Inr rewards \<Rightarrow>
          (case batch_mean_kl kld response_mask of
             Inl e \<Rightarrow> Inl e
           | Inr current_kl \<Rightarrow>
               (case update kl_ctrl current_kl (length (token_level_scores data)) of
                  Inl e \<Rightarrow> Inl e
                | Inr kl_ctrl' \<Rightarrow>
                    Inr (data\<lparr>token_level_rewards := Some rewards\<rparr>, kl_ctrl',
                         \<lparr>critic_kl = current_kl, critic_kl_coeff = beta\<rparr>))))"

definition apply_kl_penalty ::
  "kl_batch \<Rightarrow> kl_controller \<Rightarrow> string \<Rightarrow> error + kl_batch \<times> kl_controller \<times> kl_metrics" where
  "apply_kl_penalty data kl_ctrl pen =
     (let response_length = width (responses data);
          response_mask = map (slice_last response_length) (attention_mask data)
      in case ref_log_prob data of
           Some ref \<Rightarrow>
             (case kl_penalty (old_log_probs data) ref pen of
                Inl e \<Rightarrow> Inl e
              | Inr kld0 \<Rightarrow>
                  (case elementwise times_mask kld0 response_mask of
                     Inl e \<Rightarrow> Inl e
                   | Inr kld \<Rightarrow> kl_finish data kl_ctrl (kl_value kl_ctrl) kld response_mask))
         | None \<Rightarrow>
             kl_finish data kl_ctrl 0 (map (map (\<lambda>_. 0)) response_mask) response_mask)"

section \<open>Accuracy filtering\<close>

text \<open>
  \<^verbatim>\<open>x.reshape(-1, n)\<close> of a vector: row \<open>g\<close> holds the entries \<open>g * n\<close> to \<open>g * n + n - 1\<close>.
  torch raises when the length is not a multiple of \<open>n\<close>, and for \<open>n = 0\<close>.
\<close>

definition reshape_rows :: "nat \<Rightarrow> 'a list \<Rightarrow> error + 'a list list" where
  "reshape_rows n xs =
     (if n = 0 \<or> length xs mod n \<noteq> 0 then Inl RuntimeError
      else Inr (map (\<lambda>g. take n (drop (g * n) xs)) [0..<length xs div n]))"

text \<open>\<^verbatim>\<open>x.repeat_interleave(n)\<close>: every entry \<open>n\<close> times, in place.\<close>

definition repeat_interleave :: "nat \<Rightarrow> 'a list \<Rightarrow> 'a list" where
  "repeat_interleave n xs = concat (map (replicate n) xs)"

text \<open>
  Modelled from the spec: \<^verbatim>\<open>DataProto.slice\<close> is not among the sources. With a boolean
  mask it keeps the rows of the batch where the mask is set, in their order, as indexing a
  tensor with a mask does; a mask of another length than the batch is an IndexError.
\<close>

definition slice_mask :: "bool list \<Rightarrow> 'a list \<Rightarrow> error + 'a list" where
  "slice_mask ms batch =
     (if length ms \<noteq> length batch then Inl IndexError
      else Inr (map snd (filter fst (zip ms batch))))"

text \<open>The entries of \<^verbatim>\<open>config.data\<close> that the trainer reads.\<close>

record data_config =
  filter_accuracy :: bool
  accuracy_lower_bound :: real
  accuracy_upper_bound :: real
  max_prompt_length :: nat

text \<open>
  \<^verbatim>\<open>RayPRIMETrainer.filter\<close> (the name \<open>filter\<close> is taken in HOL). The rows of the batch are
  of any type; the printed histogram of the accuracies is no part of the result.
\<close>

definition filter_batch :: "data_config \<Rightarrow> tensor \<Rightarrow> 'a list \<Rightarrow> nat \<Rightarrow> error + 'a list" where
  "filter_batch cfg reward_tensor batch n_samples =
     (case reshape_rows n_samples (map sum_list reward_tensor) of
        Inl e \<Rightarrow> Inl e
      | Inr reward_matrix \<Rightarrow>
          (let acc_tensor = map (\<lambda>row. sum_list row / real n_samples) reward_matrix;
               acc_mask = map (\<lambda>a. accuracy_lower_bound cfg \<le> a \<and> a \<le> accuracy_upper_bound cfg) acc_tensor;
               acc_mask = repeat_interleave n_samples acc_mask
           in slice_mask acc_mask batch))"

text \<open>
  The filter in the words of the specification: group \<open>g\<close> is the \<open>n\<close> consecutive rows from
  \<open>g * n\<close> on, and a whole group is kept exactly when its mean accuracy lies in the
  inclusive range.
\<close>

definition group_rows :: "nat \<Rightarrow> nat \<Rightarrow> 'a list \<Rightarrow> 'a list" where
  "group_rows n g xs = take n (drop (g * n) xs)"

definition group_mean_acc :: "nat \<Rightarrow> nat \<Rightarrow> tensor \<Rightarrow> real" where
  "group_mean_acc n g reward_tensor = sum_list (group_rows n g (map sum_list reward_tensor)) / real n"

definition keep_groups :: "data_config \<Rightarrow> tensor \<Rightarrow> 'a list \<Rightarrow> nat \<Rightarrow> 'a list" where
  "keep_groups cfg reward_tensor batch n =
     concat (map (\<lambda>g. if accuracy_lower_bound cfg \<le> group_mean_acc n g reward_tensor
                           \<and> group_mean_acc n g reward_tensor \<le> accuracy_upper_bound cfg
                        then group_rows n g batch else [])
                 [0..<length batch div n])"

section \<open>Pairwise ranking accuracy\<close>

text \<open>
  Python's \<^verbatim>\<open>range(0, stop, step)\<close> for a positive step. A step of 0 raises ValueError
  where the range is built.
\<close>

definition py_range :: "nat \<Rightarrow> nat \<Rightarrow> nat list" where
  "py_range stop step = map (\<lambda>k. k * step) [0..<(stop + step - 1) div step]"

text \<open>
  A loop whose iterations do not depend on one another and may raise: the results in
  order, or the first exception.
\<close>

fun first_error :: "(error + 'a) list \<Rightarrow> error + 'a list" where
  "first_error [] = Inr []"
| "first_error (Inl e # _) = Inl e"
| "first_error (Inr x # rs) = (case first_error rs of Inl e \<Rightarrow> Inl e | Inr xs \<Rightarrow> Inr (x # xs))"







section \<open>Returns of REINFORCE and of generalised advantage estimation\<close>

text \<open>
  Both estimators walk the columns of the reward tensor from the last to the first. Column
  \<open>t\<close> of a tensor is \<^verbatim>\<open>x[:, t]\<close>; the loops only read columns below the width. A tensor
  without rows has width 0 in this model. \<^verbatim>\<open>torch.stack(cols, dim=1)\<close> makes the columns a
  tensor again and raises for an empty list of columns. The whitening of the advantages,
  \<^verbatim>\<open>verl_F.masked_whiten\<close>, is not among the sources and is a parameter of the model.
\<close>

definition column :: "nat \<Rightarrow> 'a list list \<Rightarrow> 'a list" where
  "column t x = map (\<lambda>row. row ! t) x"

definition stack_dim1 :: "nat \<Rightarrow> 'a list list \<Rightarrow> error + 'a list list" where
  "stack_dim1 bs cols =
     (if cols = [] then Inl RuntimeError
      else Inr (map (\<lambda>i. map (\<lambda>c. c ! i) cols) [0..<bs]))"

definition zeros_like :: "'a list list \<Rightarrow> tensor" where
  "zeros_like x = map (map (\<lambda>_. 0)) x"

text \<open>
  One round of the loop of \<^verbatim>\<open>compute_reinforce_returns\<close>: the scalar \<^verbatim>\<open>0.0\<close> of the first
  round is a column of zeros.
\<close>

definition reinforce_step :: "tensor \<Rightarrow> real \<Rightarrow> nat \<Rightarrow> nat \<Rightarrow> real list list \<Rightarrow> real list list" where
  "reinforce_step rewards gamma gen_len t returns_reversed =
     (let next_return = (if t = gen_len - 1 then map (\<lambda>_. 0) rewards else hd returns_reversed);
          current_return = map2 (\<lambda>r nr. r + gamma * nr) (column t rewards) next_return
      in current_return # returns_reversed)"

definition compute_reinforce_returns ::
  "(tensor \<Rightarrow> mask \<Rightarrow> tensor) \<Rightarrow> tensor \<Rightarrow> mask \<Rightarrow> real \<Rightarrow> error + tensor \<times> tensor" where
  "compute_reinforce_returns masked_whiten rewards eos_mask gamma =
     (let gen_len = width rewards;
          returns_reversed = fold (reinforce_step rewards gamma gen_len) (rev [0..<gen_len]) []
      in case stack_dim1 (length rewards) returns_reversed of
           Inl e \<Rightarrow> Inl e
         | Inr returns \<Rightarrow> Inr (masked_whiten returns eos_mask, returns))"

text \<open>
  One round of the loop of \<^verbatim>\<open>compute_gae_advantage_return\<close>; the state is
  \<^verbatim>\<open>lastgaelam\<close> and \<^verbatim>\<open>advantages_reversed\<close>. Rewards and values of different shapes
  are reported before the loop.
\<close>

definition gae_step ::
  "tensor \<Rightarrow> tensor \<Rightarrow> real \<Rightarrow> real \<Rightarrow> nat \<Rightarrow> nat \<Rightarrow> real list \<times> real list list \<Rightarrow> real list \<times> real list list" where
  "gae_step rewards vals gamma lam gen_len t st =
     (let lastgaelam = fst st; advantages_reversed = snd st;
          nextvalues = (if t < gen_len - 1 then column (t + 1) vals else map (\<lambda>_. 0) rewards);
          delta = map2 (-) (map2 (\<lambda>r nv. r + gamma * nv) (column t rewards) nextvalues)
                           (column t vals);
          lastgaelam = map2 (\<lambda>d l. d + gamma * lam * l) delta lastgaelam
      in (lastgaelam, advantages_reversed @ [lastgaelam]))"

definition compute_gae_advantage_return ::
  "(tensor \<Rightarrow> mask \<Rightarrow> tensor) \<Rightarrow> tensor \<Rightarrow> tensor \<Rightarrow> mask \<Rightarrow> real \<Rightarrow> real \<Rightarrow> error + tensor \<times> tensor" where
  "compute_gae_advantage_return masked_whiten rewards vals eos_mask gamma lam =
     (if \<not> same_shape rewards vals then Inl RuntimeError
      else let gen_len = width rewards;
               advantages_reversed =
                 snd (fold (gae_step rewards vals gamma lam gen_len) (rev [0..<gen_len])
                        (map (\<lambda>_. 0) rewards, []))
      in case stack_dim1 (length rewards) (rev advantages_reversed) of
           Inl e \<Rightarrow> Inl e
         | Inr advantages \<Rightarrow>
             (case elementwise (+) advantages vals of
                Inl e \<Rightarrow> Inl e
              | Inr returns \<Rightarrow> Inr (masked_whiten advantages eos_mask, returns)))"

text \<open>
  The reverse cumulative sum of a row, in the words of the specification: entry \<open>t\<close> is the
  sum of the rewards from \<open>t\<close> on. A tensor is rectangular of width \<open>L\<close> when every row has
  length \<open>L\<close>.
\<close>

definition rev_cumsum :: "real list \<Rightarrow> real list" where
  "rev_cumsum row = map (\<lambda>t. sum_list (drop t row)) [0..<length row]"

definition rect :: "nat \<Rightarrow> 'a list list \<Rightarrow> bool" where
  "rect L x = (\<forall>row \<in> set x. length row = L)"

text \<open>Column \<open>t\<close> of the reverse cumulative sums.\<close>

definition suffix_sums :: "nat \<Rightarrow> tensor \<Rightarrow> real list" where
  "suffix_sums t x = map (\<lambda>row. sum_list (drop t row)) x"

section \<open>The overflow buffer\<close>

text \<open>
  A row of the rollout batch: the three fields that generation reads, over prompt and
  response, and everything else (responses, scores, accuracy) in \<open>response_fields\<close>. An
  entry of the buffer has the three fields only.
\<close>

record 'r rollout =
  input_ids :: "int list"
  seq_attention_mask :: "bool list"
  position_ids :: "int list"
  response_fields :: 'r

record prompt_entry =
  prompt_input_ids :: "int list"
  prompt_attention_mask :: "bool list"
  prompt_position_ids :: "int list"

text \<open>Python's \<^verbatim>\<open>range(start, stop, step)\<close> for a positive step; empty when \<open>stop \<le> start\<close>.\<close>

definition py_range3 :: "nat \<Rightarrow> nat \<Rightarrow> nat \<Rightarrow> nat list" where
  "py_range3 start stop step = map (\<lambda>k. start + k * step) [0..<(stop - start + step - 1) div step]"

text \<open>
  Modelled from the spec: \<^verbatim>\<open>DataProto.slice\<close>, \<^verbatim>\<open>DataProto.select\<close> and
  \<^verbatim>\<open>DataProto.slice_batch\<close> are not among the sources. \<^verbatim>\<open>slice\<close> with a range picks the
  rows at its indices (an index beyond the batch is an IndexError); \<^verbatim>\<open>select\<close> with the
  three batch keys drops every other field; \<^verbatim>\<open>slice_batch(start=0, length, dim=1)\<close> cuts
  each field to its first \<open>length\<close> columns, the prompt.
\<close>

definition slice_indices :: "nat list \<Rightarrow> 'a list \<Rightarrow> error + 'a list" where
  "slice_indices idx batch =
     (if \<exists>i \<in> set idx. length batch \<le> i then Inl IndexError
      else Inr (map (\<lambda>i. batch ! i) idx))"

definition select_prompt_keys :: "'r rollout \<Rightarrow> prompt_entry" where
  "select_prompt_keys row =
     \<lparr>prompt_input_ids = input_ids row,
      prompt_attention_mask = seq_attention_mask row,
      prompt_position_ids = position_ids row\<rparr>"

definition slice_batch :: "nat \<Rightarrow> prompt_entry \<Rightarrow> prompt_entry" where
  "slice_batch len e =
     \<lparr>prompt_input_ids = take len (prompt_input_ids e),
      prompt_attention_mask = take len (prompt_attention_mask e),
      prompt_position_ids = take len (prompt_position_ids e)\<rparr>"

text \<open>
  Modelled from the spec: the data loader is not among the sources. Its overflow buffer
  is a queue of prompts, and its \<^verbatim>\<open>add_to_buffer\<close> appends the entries it is given.
\<close>

definition loader_add_to_buffer :: "prompt_entry list \<Rightarrow> prompt_entry list \<Rightarrow> prompt_entry list" where
  "loader_add_to_buffer buffer buffer_batch = buffer @ buffer_batch"

text \<open>
  \<^verbatim>\<open>RayPRIMETrainer.add_to_buffer\<close>. \<open>groups\<close> is \<^verbatim>\<open>buffer_length + batch_size\<close>, the
  number of whole groups of the batch. The range of the first slice has the step
  \<open>n_samples\<close>: it picks the first row of every group after the first \<open>batch_size\<close> groups.
  The buffer of the loader is passed in and returned with the kept batch.
\<close>

definition add_to_buffer ::
  "data_config \<Rightarrow> prompt_entry list \<Rightarrow> 'r rollout list \<Rightarrow> nat \<Rightarrow> nat
     \<Rightarrow> error + 'r rollout list \<times> prompt_entry list" where
  "add_to_buffer cfg buffer batch batch_size n_samples =
     (if n_samples = 0 then Inl ZeroDivisionError
      else let groups = length batch div n_samples
      in case slice_indices
                (py_range3 (batch_size * n_samples) (groups * n_samples) n_samples) batch of
           Inl e \<Rightarrow> Inl e
         | Inr first_rows \<Rightarrow>
             (let buffer_batch = map select_prompt_keys first_rows;
                  buffer_batch = map (slice_batch (max_prompt_length cfg)) buffer_batch;
                  buffer_mask = map (\<lambda>g. g < batch_size) [0..<groups];
                  buffer_mask = repeat_interleave n_samples buffer_mask
              in case slice_mask buffer_mask batch of
                   Inl e \<Rightarrow> Inl e
                 | Inr kept \<Rightarrow> Inr (kept, loader_add_to_buffer buffer buffer_batch)))"

text \<open>What the buffer receives for a group: the prompt fields of a row.\<close>

definition prompt_only :: "data_config \<Rightarrow> 'r rollout \<Rightarrow> prompt_entry" where
  "prompt_only cfg row = slice_batch (max_prompt_length cfg) (select_prompt_keys row)"

text \<open>
  An example of the overshoot: twelve rows, three groups of four, for a target of two
  groups.
\<close>

definition mk_row :: "int \<Rightarrow> unit rollout" where
  "mk_row i = \<lparr>input_ids = [i, 100 + i, 200 + i], seq_attention_mask = [True, True, True],
              position_ids = [0, 1, 2], response_fields = ()\<rparr>"

definition overshoot_batch :: "unit rollout list" where
  "overshoot_batch = map mk_row [0, 1, 2, 3, 4, 5, 6, 7, 8, 9, 10, 11]"

definition overshoot_config :: data_config where
  "overshoot_config =
     \<lparr>filter_accuracy = False,
      accuracy_lower_bound = 0.2, accuracy_upper_bound = 0.8, max_prompt_length = 2\<rparr>"

section \<open>The collection loop of the trainer\<close>

text \<open>
  \<^verbatim>\<open>RayPRIMETrainer.fit\<close> calls worker groups, a verifier and a data loader that are not
  among the sources. The model takes them as parameters: \<open>rollout\<close> is generation and
  verification for a batch of prompts (all samples of a prompt next to one another),
  \<open>accuracy\<close> reads the verified accuracy of a row, \<open>train_step\<close> is everything one
  iteration does with a full batch (reference log-probabilities, reward model, values,
  KL penalty, advantages, the updates of critic and actor, validation, logging and
  checkpoints) and may fail, and \<open>get_from_buffer\<close> splits the buffer into the prompts it
  hands out and the rest.
\<close>

record ('r, 'w) collaborators =
  world_size :: nat
  get_from_buffer :: "nat \<Rightarrow> nat \<Rightarrow> prompt_entry list \<Rightarrow> prompt_entry list \<times> prompt_entry list"
  rollout :: "prompt_entry list \<Rightarrow> 'r rollout list"
  accuracy :: "'r rollout \<Rightarrow> real"
  train_step :: "'r rollout list \<Rightarrow> 'w \<Rightarrow> error + 'w"

text \<open>
  Modelled from the spec: the data loader is not among the sources. It holds the prompt
  batches the current epoch has not yet handed out and the overflow buffer;
  \<^verbatim>\<open>get_next_batch\<close> hands out the next batch and raises \<^verbatim>\<open>StopIteration\<close> when none is
  left. The state of the trainer is the loader, the state of all workers and controllers
  (\<open>world\<close>) and the step counter.
\<close>

record 'w trainer =
  loader_pending :: "prompt_entry list list"
  loader_buffer :: "prompt_entry list"
  world :: 'w
  global_steps :: nat

text \<open>
  The loop \<^verbatim>\<open>while len(valid_batch) < batch_size * n_samples\<close>. With no batch left,
  \<^verbatim>\<open>get_next_batch\<close> raises \<^verbatim>\<open>StopIteration\<close>, which the loop catches to \<^verbatim>\<open>break\<close>: the
  first equation, which is also the end of the loop when the goal is reached on the last
  batch. The result is the valid batch and what is left of the epoch.
\<close>

fun collect ::
  "('r, 'w) collaborators \<Rightarrow> data_config \<Rightarrow> nat \<Rightarrow> nat \<Rightarrow> 'r rollout list \<Rightarrow> prompt_entry list
     \<Rightarrow> prompt_entry list list \<Rightarrow> error + 'r rollout list \<times> prompt_entry list list" where
  "collect P cfg n_samples goal valid_batch buffer_batch [] = Inr (valid_batch, [])"
| "collect P cfg n_samples goal valid_batch buffer_batch (batch_dict # rest) =
     (if length valid_batch < goal then
        (let newbatch = (if 0 < length buffer_batch then buffer_batch @ batch_dict else batch_dict);
             roll_batch = rollout P newbatch
         in case (if filter_accuracy cfg
                  then filter_batch cfg (map (\<lambda>r. [accuracy P r]) roll_batch) roll_batch n_samples
                  else Inr roll_batch) of
              Inl e \<Rightarrow> Inl e
            | Inr roll_batch \<Rightarrow> collect P cfg n_samples goal (valid_batch @ roll_batch) [] rest)
      else Inr (valid_batch, batch_dict # rest))"

text \<open>
  One round of \<^verbatim>\<open>while True\<close> in \<^verbatim>\<open>fit\<close>: it ends the loop (\<^verbatim>\<open>break\<close>) or goes on to
  the next round with a new state.
\<close>

datatype 's iteration = Break 's | Next 's

definition drain_buffer ::
  "('r, 'w) collaborators \<Rightarrow> nat \<Rightarrow> 'w trainer \<Rightarrow> prompt_entry list \<times> prompt_entry list" where
  "drain_buffer P batch_size st =
     (if 0 < length (loader_buffer st)
      then get_from_buffer P batch_size (world_size P) (loader_buffer st)
      else ([], loader_buffer st))"

definition fit_iteration ::
  "('r, 'w) collaborators \<Rightarrow> data_config \<Rightarrow> nat \<Rightarrow> nat \<Rightarrow> 'w trainer \<Rightarrow> error + 'w trainer iteration" where
  "fit_iteration P cfg batch_size n_samples st =
     (case drain_buffer P batch_size st of
        (buffer_batch, buffer) \<Rightarrow>
          (case collect P cfg n_samples (batch_size * n_samples) [] buffer_batch (loader_pending st) of
             Inl e \<Rightarrow> Inl e
           | Inr (valid_batch, pending) \<Rightarrow>
               (if length valid_batch < batch_size * n_samples
                then Inr (Break (st\<lparr>loader_pending := pending, loader_buffer := buffer\<rparr>))
                else (case (if batch_size * n_samples < length valid_batch
                            then add_to_buffer cfg buffer valid_batch batch_size n_samples
                            else Inr (valid_batch, buffer)) of
                        Inl e \<Rightarrow> Inl e
                      | Inr (batch, buffer') \<Rightarrow>
                          (case train_step P batch (world st) of
                             Inl e \<Rightarrow> Inl e
                           | Inr w \<Rightarrow>
                               Inr (Next (st\<lparr>loader_pending := pending, loader_buffer := buffer',
                                              world := w,
                                              global_steps := global_steps st + 1\<rparr>)))))))"

text \<open>
  The loop \<^verbatim>\<open>while True\<close> of one epoch. It need not end (a target of 0 sequences never
  breaks), so not returning is the value \<open>None\<close>; an exception is \<open>Some (Inl e)\<close> and the
  normal end of the loop \<open>Some (Inr st)\<close>.
\<close>

partial_function (option) run_epoch ::
  "('r, 'w) collaborators \<Rightarrow> data_config \<Rightarrow> nat \<Rightarrow> nat \<Rightarrow> 'w trainer \<Rightarrow> (error + 'w trainer) option" where
  "run_epoch P cfg batch_size n_samples st =
     (case fit_iteration P cfg batch_size n_samples st of
        Inl e \<Rightarrow> Some (Inl e)
      | Inr (Break st') \<Rightarrow> Some (Inr st')
      | Inr (Next st') \<Rightarrow> run_epoch P cfg batch_size n_samples st')"

text \<open>The state after an abandoned round: the epoch is used up, nothing else has changed
  but the buffer that was drained.\<close>

definition abandoned :: "('r, 'w) collaborators \<Rightarrow> nat \<Rightarrow> 'w trainer \<Rightarrow> 'w trainer" where
  "abandoned P batch_size st =
     st\<lparr>loader_pending := [], loader_buffer := snd (drain_buffer P batch_size st)\<rparr>"

text \<open>
  An example: the last batch of the epoch holds one prompt, two samples are drawn for it,
  and four sequences are wanted. Every training step of these workers would fail.
\<close>

definition two_samples :: "prompt_entry list \<Rightarrow> unit rollout list" where
  "two_samples ps =
     concat (map (\<lambda>p. replicate 2 \<lparr>input_ids = prompt_input_ids p @ [7],
                                     seq_attention_mask = prompt_attention_mask p @ [True],
                                     position_ids = prompt_position_ids p @ [2],
                                     response_fields = ()\<rparr>) ps)"

definition failing_workers :: "(unit, nat) collaborators" where
  "failing_workers =
     \<lparr>world_size = 1,
      get_from_buffer = (\<lambda>batch_size ws buf. (take batch_size buf, drop batch_size buf)),
      rollout = two_samples,
      accuracy = (\<lambda>r. 1),
      train_step = (\<lambda>batch w. Inl RuntimeError)\<rparr>"

definition last_prompts :: "nat trainer" where
  "last_prompts =
     \<lparr>loader_pending = [[\<lparr>prompt_input_ids = [5, 6], prompt_attention_mask = [True, True],
                          prompt_position_ids = [0, 1]\<rparr>]],
      loader_buffer = [], world = 0, global_steps = 3\<rparr>"

section \<open>Returns from implicit values\<close>

text \<open>
  The batch of \<^verbatim>\<open>compute_gae_value_returns\<close> holds, besides the fields above, the prompts,
  the ground-truth scores and the scores of the reward model, which the estimator reads
  as implicit values. Of the configuration it reads \<^verbatim>\<open>config.reward_model.prime_use_gt\<close>.
\<close>

record prime_batch = kl_batch +
  prompts :: "int list list"
  gt_scores :: tensor
  rm_scores :: tensor

record reward_model_config =
  prime_use_gt :: bool

text \<open>
  Python's index \<^verbatim>\<open>x[i]\<close> (a negative index counts from the end, an index out of range
  raises) and prefix \<^verbatim>\<open>x[:k]\<close> (a negative \<open>k\<close> drops the last entries).
\<close>

definition py_index :: "nat \<Rightarrow> int \<Rightarrow> nat option" where
  "py_index len i =
     (if 0 \<le> i \<and> i < int len then Some (nat i)
      else if - int len \<le> i \<and> i < 0 then Some (nat (int len + i))
      else None)"

definition py_prefix :: "int \<Rightarrow> 'a list \<Rightarrow> 'a list" where
  "py_prefix k xs = (if 0 \<le> k then take (nat k) xs else take (nat (int (length xs) + k)) xs)"

text \<open>\<^verbatim>\<open>attention_mask[:, prompt_length:].sum(-1)\<close> for one row.\<close>

definition valid_response_length :: "nat \<Rightarrow> bool list \<Rightarrow> nat" where
  "valid_response_length prompt_length attention_row = count_list (drop prompt_length attention_row) True"

text \<open>
  The body of the loop over the rows of \<^verbatim>\<open>q\<close>: with \<^verbatim>\<open>prime_use_gt\<close> the entry at
  \<^verbatim>\<open>valid_response_length - 1\<close> is overwritten (for a length of 0 this is the index
  \<^verbatim>\<open>-1\<close>, the last entry), then every entry from the valid length on is set to 0.
\<close>

definition close_row :: "bool \<Rightarrow> real list \<Rightarrow> real list \<Rightarrow> nat \<Rightarrow> error + real list" where
  "close_row use_gt gt_row q_row vrl =
     (case (if use_gt
            then (case (py_index (length gt_row) (int vrl - 1), py_index (length q_row) (int vrl - 1)) of
                    (Some j', Some j) \<Rightarrow>
                      Inr (q_row[j := gt_row ! j' - sum_list (py_prefix (int vrl - 1) q_row)])
                  | _ \<Rightarrow> Inl IndexError)
            else Inr q_row) of
        Inl e \<Rightarrow> Inl e
      | Inr q_row' \<Rightarrow> Inr (take vrl q_row' @ replicate (length q_row' - vrl) 0))"

text \<open>
  One round of the backward loop; the argument \<^verbatim>\<open>gamma\<close> of the function is not read.
  The tensors of one batch have the same number of rows; scores of different shapes are
  reported before the loops.
\<close>

definition gae_value_step ::
  "tensor \<Rightarrow> real \<Rightarrow> nat \<Rightarrow> real list \<times> real list list \<Rightarrow> real list \<times> real list list" where
  "gae_value_step q lam t st =
     (let lastgaelam = fst st; advantages_reversed = snd st;
          delta = column t q;
          lastgaelam = map2 (\<lambda>d l. d + lam * l) delta lastgaelam
      in (lastgaelam, advantages_reversed @ [lastgaelam]))"

definition compute_gae_value_returns ::
  "(tensor \<Rightarrow> mask \<Rightarrow> tensor) \<Rightarrow> 'a prime_batch_scheme \<Rightarrow> mask \<Rightarrow> nat \<Rightarrow> reward_model_config
     \<Rightarrow> real \<Rightarrow> real \<Rightarrow> error + tensor \<times> tensor" where
  "compute_gae_value_returns masked_whiten data eos_mask n_samples config lam gamma =
     (let rewards = gt_scores data;
          q = rm_scores data;
          gen_len = width rewards;
          prompt_length = width (prompts data);
          vrl = map (valid_response_length prompt_length) (attention_mask data)
      in if \<not> same_shape rewards q \<or> length vrl \<noteq> length q then Inl RuntimeError
         else case first_error (map (\<lambda>i. close_row (prime_use_gt config) (rewards ! i) (q ! i) (vrl ! i))
                                    [0..<length q]) of
                Inl e \<Rightarrow> Inl e
              | Inr q' \<Rightarrow>
                  (let advantages_reversed =
                         snd (fold (gae_value_step q' lam) (rev [0..<gen_len]) (map (\<lambda>_. 0) q', []))
                   in case stack_dim1 (length q') (rev advantages_reversed) of
                        Inl e \<Rightarrow> Inl e
                      | Inr advantages \<Rightarrow>
                          (let returns = map (\<lambda>row. map (\<lambda>_. sum_list row) row) rewards
                           in Inr (masked_whiten advantages eos_mask, returns))))"

text \<open>
  The values in the words of the specification: up to the last valid position the scores
  of the reward model, at the last valid position the ground-truth score minus the sum of
  the scores before it, afterwards 0. The recurrence \<open>A\<^sub>t = v\<^sub>t + lam * A\<^sub>t\<^sub>+\<^sub>1\<close> on a row.
\<close>

definition closed_values :: "real list \<Rightarrow> real list \<Rightarrow> nat \<Rightarrow> real list" where
  "closed_values gt_row q_row vrl =
     (if vrl = 0 then replicate (length q_row) 0
      else take (vrl - 1) q_row
           @ [gt_row ! (vrl - 1) - sum_list (take (vrl - 1) q_row)]
           @ replicate (length q_row - vrl) 0)"

definition implicit_values :: "'a prime_batch_scheme \<Rightarrow> tensor" where
  "implicit_values data =
     map (\<lambda>(gt_row, q_row, attention_row).
            closed_values gt_row q_row
              (valid_response_length (width (prompts data)) attention_row))
         (zip (gt_scores data) (zip (rm_scores data) (attention_mask data)))"

fun backward :: "real \<Rightarrow> real list \<Rightarrow> real list" where
  "backward lam [] = []"
| "backward lam (v # vs) =
     (v + lam * (case backward lam vs of [] \<Rightarrow> 0 | a # _ \<Rightarrow> a)) # backward lam vs"

text \<open>Entry \<open>t\<close> of the recurrence, 0 beyond the row.\<close>

definition adv_at :: "real \<Rightarrow> real list \<Rightarrow> nat \<Rightarrow> real" where
  "adv_at lam row t = (case backward lam (drop t row) of [] \<Rightarrow> 0 | a # _ \<Rightarrow> a)"

text \<open>An example batch of two sequences with a prompt of two tokens and a response of
  three, of valid lengths 2 and 3, and a whitening that leaves the advantages as they are.\<close>

definition keep_advantages :: "tensor \<Rightarrow> mask \<Rightarrow> tensor" where
  "keep_advantages a m = a"

definition value_example :: prime_batch where
  "value_example =
     \<lparr>responses = [[7, 8, 9], [7, 8, 9]], token_level_scores = [[0, 0, 0], [0, 0, 0]],
      attention_mask = [[True, True, True, True, False], [True, True, True, True, True]],
      old_log_probs = [[0, 0, 0], [0, 0, 0]], ref_log_prob = None, token_level_rewards = None,
      prompts = [[1, 2], [3, 4]],
      gt_scores = [[0, 1, 0], [0, 0, 5]], rm_scores = [[1, 2, 4], [3, 4, 6]]\<rparr>"

section \<open>float32 arithmetic\<close>

text \<open>
  The reward tensors of the leave-one-out estimator are float32 tensors, and the
  correction is a chain of float32 operations, each of which returns the exact result
  rounded to the nearest float32, as IEEE 754 prescribes and as torch computes on the
  CPU. A float32 value is a finite number, an infinity or nan;
  the two zeros are not told apart (the estimator divides by counts only, and a count is
  never the negative zero).

  \<open>binade emax emin x\<close> is the power of two \<open>2 ^ e\<close> with \<open>2 ^ e \<le> x < 2 ^ (e + 1)\<close> for a
  non-negative \<open>x\<close>, found by doubling from 1 (at most \<open>emax\<close> times) or by halving from
  1/2 (at most down to the exponent \<open>- emin\<close>), so that the exponent stays in the range from
  \<open>- emin\<close> to \<open>emax\<close>. \<open>round_binary m emax emin\<close> rounds a real number to the nearest
  multiple of the spacing of its binade, which is the binade divided by \<open>m\<close>, half-way
  cases to the even multiple; \<open>m\<close> is \<open>2 ^ (p - 1)\<close> for a precision of \<open>p\<close> bits. Below the
  smallest exponent the spacing stays the same (subnormal numbers).
\<close>

fun pow_up :: "nat \<Rightarrow> real \<Rightarrow> real \<Rightarrow> real" where
  "pow_up 0 b x = b"
| "pow_up (Suc k) b x = (if x < 2 * b then b else pow_up k (2 * b) x)"

fun pow_down :: "nat \<Rightarrow> real \<Rightarrow> real \<Rightarrow> real" where
  "pow_down 0 b x = b"
| "pow_down (Suc k) b x = (if b \<le> x then b else pow_down k (b / 2) x)"

definition binade :: "nat \<Rightarrow> nat \<Rightarrow> real \<Rightarrow> real" where
  "binade emax emin x = (if 1 \<le> x then pow_up emax 1 x else pow_down (emin - 1) (1 / 2) x)"

definition round_half_even :: "real \<Rightarrow> int" where
  "round_half_even r =
     (let f = \<lfloor>r\<rfloor>; d = r - of_int f
      in if d < 1 / 2 then f else if 1 / 2 < d then f + 1 else if even f then f else f + 1)"

definition round_binary :: "real \<Rightarrow> nat \<Rightarrow> nat \<Rightarrow> real \<Rightarrow> real" where
  "round_binary m emax emin x =
     (let q = binade emax emin \<bar>x\<bar> / m
      in of_int (round_half_even (x / q)) * q)"

datatype f32 = Finite real | PInf | NInf | NaN

text \<open>
  The float32 nearest to a real number: 24 bits of precision (\<open>2 ^ 23 = 8388608\<close>),
  exponents from -126 to 127, an infinity when the rounded number reaches
  \<open>2 ^ 128 = 340282366920938463463374607431768211456\<close>. This is also the conversion of a
  Python float to the float32 scalar that meets a float32 tensor.
\<close>

definition fl32 :: "real \<Rightarrow> f32" where
  "fl32 x =
     (let r = round_binary 8388608 127 126 x
      in if 340282366920938463463374607431768211456 \<le> r then PInf
         else if r \<le> - 340282366920938463463374607431768211456 then NInf
         else Finite r)"

text \<open>
  The Python float (float64: 53 bits of precision, \<open>2 ^ 52 = 4503599627370496\<close>, exponents
  from -1022 to 1023) nearest to a real number, for the quotient
  \<^verbatim>\<open>n_samples / (n_samples - 1)\<close> of two Python integers, which is at most 2 and does not
  overflow.
\<close>

definition fl64 :: "real \<Rightarrow> real" where
  "fl64 x = round_binary 4503599627370496 1023 1022 x"

text \<open>The float32 of a Python integer (a count, or \<^verbatim>\<open>n_samples - 1\<close>).\<close>

definition f32_of_nat :: "nat \<Rightarrow> f32" where
  "f32_of_nat k = fl32 (real k)"

text \<open>The operations of IEEE 754 on float32 values, in the default rounding mode.\<close>

fun fneg :: "f32 \<Rightarrow> f32" where
  "fneg (Finite a) = Finite (- a)"
| "fneg PInf = NInf"
| "fneg NInf = PInf"
| "fneg NaN = NaN"

fun fadd :: "f32 \<Rightarrow> f32 \<Rightarrow> f32" where
  "fadd (Finite a) (Finite b) = fl32 (a + b)"
| "fadd NaN y = NaN"
| "fadd x NaN = NaN"
| "fadd PInf NInf = NaN"
| "fadd NInf PInf = NaN"
| "fadd PInf y = PInf"
| "fadd x PInf = PInf"
| "fadd NInf y = NInf"
| "fadd x NInf = NInf"

definition fsub :: "f32 \<Rightarrow> f32 \<Rightarrow> f32" where
  "fsub x y = fadd x (fneg y)"

fun fmul :: "f32 \<Rightarrow> f32 \<Rightarrow> f32" where
  "fmul (Finite a) (Finite b) = fl32 (a * b)"
| "fmul NaN y = NaN"
| "fmul x NaN = NaN"
| "fmul (Finite a) y = (if a = 0 then NaN else if 0 < a then y else fneg y)"
| "fmul x (Finite b) = (if b = 0 then NaN else if 0 < b then x else fneg x)"
| "fmul PInf y = y"
| "fmul NInf y = fneg y"

fun fdiv :: "f32 \<Rightarrow> f32 \<Rightarrow> f32" where
  "fdiv (Finite a) (Finite b) =
     (if b = 0 then (if a = 0 then NaN else if 0 < a then PInf else NInf) else fl32 (a / b))"
| "fdiv NaN y = NaN"
| "fdiv x NaN = NaN"
| "fdiv (Finite a) y = Finite 0"
| "fdiv x (Finite b) = (if 0 \<le> b then x else fneg x)"
| "fdiv x y = NaN"

text \<open>
  A reduction \<^verbatim>\<open>x.sum()\<close> returns a float32, but the source does not fix the order in which
  the entries are added: the reduction is a parameter \<open>tsum\<close> of the model below. \<open>fsum\<close> is
  the reduction that adds the entries in the order of their indices, starting from 0.
  \<^verbatim>\<open>x.mean(dim=0, keepdim=True)\<close> of a vector is its sum divided by the number of its
  entries, and nan for a vector without entries.
\<close>

definition fsum :: "f32 list \<Rightarrow> f32" where
  "fsum xs = foldl fadd (Finite 0) xs"

definition tensor_mean :: "(f32 list \<Rightarrow> f32) \<Rightarrow> f32 list \<Rightarrow> f32" where
  "tensor_mean tsum xs = (if xs = [] then NaN else fdiv (tsum xs) (f32_of_nat (length xs)))"

section \<open>The leave-one-out baseline\<close>

text \<open>
  \<^verbatim>\<open>masked_rloo\<close> of \<^verbatim>\<open>compute_rloo_advantage_return\<close> (\<^verbatim>\<open>prime_core_algos.py\<close>) and the
  same loop in \<^verbatim>\<open>compute_rloo_returns\<close> (\<^verbatim>\<open>core_algos.py\<close>), on float32 tensors. \<^verbatim>\<open>x[m]\<close>
  with a boolean mask selects the entries where the mask is set; \<^verbatim>\<open>x[~m] = 0\<close> sets the
  others to 0 and raises when the shapes differ.
\<close>

type_synonym f32_tensor = "f32 list list"

definition masked_select :: "'a list \<Rightarrow> bool list \<Rightarrow> 'a list" where
  "masked_select row mrow = map fst (filter snd (zip row mrow))"

definition keep_masked :: "f32 \<Rightarrow> bool \<Rightarrow> f32" where
  "keep_masked v b = (if b then v else Finite 0)"

definition zero_unmasked :: "f32_tensor \<Rightarrow> mask \<Rightarrow> error + f32_tensor" where
  "zero_unmasked reward_tensor mask_tensor =
     (if same_shape reward_tensor mask_tensor
      then Inr (map2 (map2 keep_masked) reward_tensor mask_tensor)
      else Inl IndexError)"

text \<open>
  \<^verbatim>\<open>reward_tensor[pos:pos + 1][mask_tensor[pos:pos + 1]].mean(dim=0, keepdim=True)\<close>: the
  slice is empty for a position beyond the batch, and the mean of no entries is nan.
\<close>

definition row_mean :: "(f32 list \<Rightarrow> f32) \<Rightarrow> f32_tensor \<Rightarrow> mask \<Rightarrow> nat \<Rightarrow> f32" where
  "row_mean tsum reward_tensor mask_tensor pos =
     (if pos < length reward_tensor
      then tensor_mean tsum (masked_select (reward_tensor ! pos) (mask_tensor ! pos))
      else NaN)"

text \<open>
  The factor \<^verbatim>\<open>n_samples / (n_samples - 1)\<close> is a Python float, which is rounded to float32
  when it multiplies the float32 tensor.
\<close>

definition rloo_scale :: "nat \<Rightarrow> f32" where
  "rloo_scale n_samples = fl32 (fl64 (real n_samples / real (n_samples - 1)))"

text \<open>
  The assignment to the masked entries of the rows of one group, and the body of the
  loop over the groups. \<^verbatim>\<open>n_samples / (n_samples - 1)\<close> divides Python integers and
  raises for \<open>n_samples = 1\<close>, whatever the means are; for a larger \<open>n_samples\<close> a mean that
  is nan makes the masked entries of the group nan and leaves the other groups alone.
\<close>

definition rloo_update :: "nat \<Rightarrow> f32 \<Rightarrow> f32 list \<Rightarrow> bool list \<Rightarrow> f32 list" where
  "rloo_update n_samples cur_reward_baseline row mrow =
     map2 (\<lambda>v b. if b then fsub (fmul v (rloo_scale n_samples)) cur_reward_baseline else v)
          row mrow"

definition rloo_group ::
  "(f32 list \<Rightarrow> f32) \<Rightarrow> nat \<Rightarrow> f32_tensor \<Rightarrow> mask \<Rightarrow> nat \<Rightarrow> error + f32_tensor" where
  "rloo_group tsum n_samples reward_tensor mask_tensor start_pos =
     (if n_samples = 1 then Inl ZeroDivisionError
      else
        (let cur_rewards_mean =
               map (row_mean tsum reward_tensor mask_tensor) [start_pos..<start_pos + n_samples];
             cur_rewards_sum = tsum cur_rewards_mean;
             cur_reward_baseline = fdiv cur_rewards_sum (f32_of_nat (n_samples - 1))
         in Inr (take start_pos reward_tensor
                 @ map2 (rloo_update n_samples cur_reward_baseline)
                     (take n_samples (drop start_pos reward_tensor))
                     (take n_samples (drop start_pos mask_tensor))
                 @ drop (start_pos + n_samples) reward_tensor)))"

text \<open>The loop \<^verbatim>\<open>for start_pos in range(0, reward_tensor.shape[0], n_samples)\<close>, which
  updates the tensor in place.\<close>

fun rloo_loop ::
  "(f32 list \<Rightarrow> f32) \<Rightarrow> nat \<Rightarrow> mask \<Rightarrow> nat list \<Rightarrow> f32_tensor \<Rightarrow> error + f32_tensor" where
  "rloo_loop tsum n_samples mask_tensor [] reward_tensor = Inr reward_tensor"
| "rloo_loop tsum n_samples mask_tensor (start_pos # rest) reward_tensor =
     (case rloo_group tsum n_samples reward_tensor mask_tensor start_pos of
        Inl e \<Rightarrow> Inl e
      | Inr reward_tensor' \<Rightarrow> rloo_loop tsum n_samples mask_tensor rest reward_tensor')"

definition masked_rloo ::
  "(f32 list \<Rightarrow> f32) \<Rightarrow> nat \<Rightarrow> f32_tensor \<Rightarrow> mask \<Rightarrow> error + f32_tensor" where
  "masked_rloo tsum n_samples reward_tensor_original mask_tensor =
     (case zero_unmasked reward_tensor_original mask_tensor of
        Inl e \<Rightarrow> Inl e
      | Inr reward_tensor \<Rightarrow>
          if n_samples = 0 then Inl ValueError
          else rloo_loop tsum n_samples mask_tensor
                 (py_range (length reward_tensor) n_samples) reward_tensor)"

text \<open>
  The same transformation in \<^verbatim>\<open>compute_rloo_returns\<close>, for one reward source \<open>v\<close> with its
  weight (a Python float) and mask: \<^verbatim>\<open>reward_tensor *= reward_weight\<close> weights the tensor
  first.
\<close>

definition rloo_reward_source ::
  "(f32 list \<Rightarrow> f32) \<Rightarrow> nat \<Rightarrow> real \<Rightarrow> f32_tensor \<Rightarrow> mask \<Rightarrow> error + f32_tensor" where
  "rloo_reward_source tsum n_samples reward_weight v reward_mask =
     masked_rloo tsum n_samples (map (map (\<lambda>x. fmul x (fl32 reward_weight))) v) reward_mask"

text \<open>
  The transformation in the words of the specification, with float32 operations: the
  masked mean reward of a sequence, the baseline of group \<open>g\<close> (the sum of the means of its
  sequences divided by \<open>n - 1\<close>), and the corrected rewards: a masked reward is scaled by
  \<open>n / (n - 1)\<close> and the baseline of its group subtracted; the other entries are 0.
\<close>

definition masked_mean_reward :: "(f32 list \<Rightarrow> f32) \<Rightarrow> f32 list \<Rightarrow> bool list \<Rightarrow> f32" where
  "masked_mean_reward tsum row mrow = tensor_mean tsum (masked_select row mrow)"

definition loo_baseline :: "(f32 list \<Rightarrow> f32) \<Rightarrow> nat \<Rightarrow> f32_tensor \<Rightarrow> mask \<Rightarrow> nat \<Rightarrow> f32" where
  "loo_baseline tsum n reward msk g =
     fdiv (tsum (map (\<lambda>pos. masked_mean_reward tsum (reward ! pos) (msk ! pos)) [g * n..<g * n + n]))
          (f32_of_nat (n - 1))"

definition rloo_corrected :: "(f32 list \<Rightarrow> f32) \<Rightarrow> nat \<Rightarrow> f32_tensor \<Rightarrow> mask \<Rightarrow> f32_tensor" where
  "rloo_corrected tsum n reward msk =
     map (\<lambda>i. map2 (\<lambda>v b. if b then fsub (fmul v (rloo_scale n)) (loo_baseline tsum n reward msk (i div n))
                          else Finite 0)
                (reward ! i) (msk ! i))
         [0..<length reward]"

text \<open>
  The corrected reward of a group of \<open>n\<close> sequences that all carry the reward \<open>x\<close> at a
  single masked position: the mean of every sequence is the mean of \<open>x\<close> alone, the baseline
  is the sum of \<open>n\<close> such means divided by \<open>n - 1\<close>, and it is subtracted from the scaled \<open>x\<close>.
\<close>

definition equal_reward_residue :: "(f32 list \<Rightarrow> f32) \<Rightarrow> nat \<Rightarrow> f32 \<Rightarrow> f32" where
  "equal_reward_residue tsum n x =
     fsub (fmul x (rloo_scale n))
          (fdiv (tsum (replicate n (tensor_mean tsum [x]))) (f32_of_nat (n - 1)))"

text \<open>The tensor after the loop has passed the first \<open>g\<close> groups.\<close>

definition rloo_stage :: "(f32 list \<Rightarrow> f32) \<Rightarrow> nat \<Rightarrow> f32_tensor \<Rightarrow> mask \<Rightarrow> nat \<Rightarrow> f32_tensor" where
  "rloo_stage tsum n reward msk g =
     map (\<lambda>i. if i < g * n then rloo_corrected tsum n reward msk ! i
               else map2 keep_masked (reward ! i) (msk ! i))
         [0..<length reward]"

section \<open>Theorems\<close>

subsection \<open>KL controllers and the KL penalty\<close>

lemma map2_same: "length a = length b \<Longrightarrow> map2 (\<lambda>s k. s) a (map f b) = a"
  by (induction a b rule: list_induct2) auto

lemma elementwise_zero:
  "same_shape scores rm \<Longrightarrow>
   elementwise (\<lambda>s k. s - 0 * k) scores (map (map (\<lambda>_. (0::real))) rm) = Inr scores"
  unfolding elementwise_def same_shape_def
proof (induction scores arbitrary: rm)
  case Nil
  then show ?case by simp
next
  case (Cons r rs)
  then obtain m ms where rm: "rm = m # ms" by (cases rm) auto
  with Cons.prems have l: "length r = length m" and rest: "map length rs = map length ms" by auto
  from Cons.IH[OF rest] have "map2 (map2 (\<lambda>s k. s - 0 * k)) rs (map (map (\<lambda>_. 0)) ms) = rs"
    by (simp add: rest split: if_splits)
  then show ?case using l rest by (simp add: rm map2_same)
qed

lemma sum_zero_masked: "sum_list (map2 times_mask (map (\<lambda>_. 0) ms) ms) = 0"
  by (induction ms) (auto simp: times_mask_def)

lemma masked_mean_row_zero:
  "True \<in> set ms \<Longrightarrow> masked_mean_row (map (\<lambda>_. 0) ms) ms = Some 0"
  unfolding masked_mean_row_def
  by (simp add: sum_zero_masked count_list_0_iff)

lemma those_all_zero:
  "\<forall>ms \<in> set rm. True \<in> set ms \<Longrightarrow>
   those_all (map2 masked_mean_row (map (map (\<lambda>_. 0)) rm) rm) = Some (map (\<lambda>_. 0) rm)"
  by (induction rm) (auto simp: masked_mean_row_zero)

lemma mean_list_zero: "rm \<noteq> [] \<Longrightarrow> mean_list (map (\<lambda>_. 0) rm) = Some 0"
proof -
  have "sum_list (map (\<lambda>_. 0::real) rm) = 0" by (induction rm) auto
  then show "rm \<noteq> [] \<Longrightarrow> mean_list (map (\<lambda>_. 0) rm) = Some 0" by (simp add: mean_list_def)
qed

lemma batch_mean_kl_zero:
  "rm \<noteq> [] \<Longrightarrow> \<forall>ms \<in> set rm. True \<in> set ms \<Longrightarrow>
   batch_mean_kl (map (map (\<lambda>_. 0)) rm) rm = Inr 0"
  unfolding batch_mean_kl_def
  by (simp add: those_all_zero mean_list_zero same_shape_def comp_def)

lemma np_clip_zero: "np_clip 0 (- 0.2) 0.2 = 0"
  by (simp add: np_clip_def)

text \<open>
  Claim C4. The adaptive controller's update multiplies the coefficient by
  1 + clip(current_kl / target - 1, -0.2, 0.2) * n_steps / horizon; the fixed controller's
  update changes nothing; when current_kl equals the target, the proportional error is 0
  and the coefficient is unchanged. The target and the horizon are not zero: a zero
  target raises ZeroDivisionError and a zero horizon gives a non-finite coefficient.
\<close>

theorem kl_update_multiplier:
  assumes "tg \<noteq> 0" and "h \<noteq> 0"
  shows "update (AdaptiveKLController v tg h) current_kl n_steps =
           Inr (AdaptiveKLController
                  (v * (1 + np_clip (current_kl / tg - 1) (- 0.2) 0.2 * real n_steps / h)) tg h)
       \<and> update (FixedKLController c) current_kl n_steps = Inr (FixedKLController c)
       \<and> np_clip (tg / tg - 1) (- 0.2) 0.2 = 0
       \<and> update (AdaptiveKLController v tg h) tg n_steps = Inr (AdaptiveKLController v tg h)"
proof (intro conjI)
  show "update (AdaptiveKLController v tg h) current_kl n_steps =
           Inr (AdaptiveKLController
                  (v * (1 + np_clip (current_kl / tg - 1) (- 0.2) 0.2 * real n_steps / h)) tg h)"
    using assms by (simp add: Let_def)
  show "update (FixedKLController c) current_kl n_steps = Inr (FixedKLController c)"
    by simp
  from assms(1) have one: "tg / tg - 1 = 0" by simp
  show clip0: "np_clip (tg / tg - 1) (- 0.2) 0.2 = 0"
    unfolding one by (rule np_clip_zero)
  have "update (AdaptiveKLController v tg h) tg n_steps =
          Inr (AdaptiveKLController
                 (v * (1 + np_clip (tg / tg - 1) (- 0.2) 0.2 * real n_steps / h)) tg h)"
    using assms by (simp add: Let_def)
  then show "update (AdaptiveKLController v tg h) tg n_steps = Inr (AdaptiveKLController v tg h)"
    unfolding clip0 by simp
qed

theorem kl_update_multiplier_witness:
  "update (AdaptiveKLController 0.5 2 100) 3 10 = Inr (AdaptiveKLController 0.51 2 100)
   \<and> update (FixedKLController 0.5) 3 10 = Inr (FixedKLController 0.5)
   \<and> update (AdaptiveKLController 0.5 2 100) 2 10 = Inr (AdaptiveKLController 0.5 2 100)"
  using kl_update_multiplier [of 2 100 "0.5" 3 10 "0.5"]
  by (simp add: np_clip_def)

text \<open>
  Claim C7. \<^verbatim>\<open>kl_penalty\<close> computes the difference, the absolute difference or half the
  squared difference of the two log-probabilities for the names kl, abs and mse, and raises
  NotImplementedError for the name full and for every other name. Whenever
  \<^verbatim>\<open>apply_kl_penalty\<close> returns on a batch with a reference log-probability, the rewards
  it stores are \<open>token_level_scores - beta * kld\<close>, where \<open>kld\<close> is the penalty on the
  response mask and \<open>beta\<close> is the value of the controller it was given.
\<close>

theorem kl_penalty_variants:
  "(same_shape logprob ref \<longrightarrow>
      kl_penalty logprob ref ''kl'' = Inr (map2 (map2 (\<lambda>a b. a - b)) logprob ref)
    \<and> kl_penalty logprob ref ''abs'' = Inr (map2 (map2 (\<lambda>a b. \<bar>a - b\<bar>)) logprob ref)
    \<and> kl_penalty logprob ref ''mse'' = Inr (map2 (map2 (\<lambda>a b. 0.5 * (a - b)\<^sup>2)) logprob ref))
   \<and> kl_penalty logprob ref ''full'' = Inl NotImplementedError
   \<and> (pen \<notin> {''kl'', ''abs'', ''mse''} \<longrightarrow> kl_penalty logprob ref pen = Inl NotImplementedError)
   \<and> (ref_log_prob data = Some ref' \<and> apply_kl_penalty data kl_ctrl pen' = Inr (data', kl_ctrl', m) \<longrightarrow>
        (\<exists>kl kld. kl_penalty (old_log_probs data) ref' pen' = Inr kl
           \<and> kld = map2 (map2 times_mask) kl
                     (map (slice_last (width (responses data))) (attention_mask data))
           \<and> token_level_rewards data' =
               Some (map2 (map2 (\<lambda>s k. s - kl_value kl_ctrl * k)) (token_level_scores data) kld)
           \<and> critic_kl_coeff m = kl_value kl_ctrl))"
proof (intro conjI impI)
  assume "same_shape logprob ref"
  then show "kl_penalty logprob ref ''kl'' = Inr (map2 (map2 (\<lambda>a b. a - b)) logprob ref)"
    and "kl_penalty logprob ref ''abs'' = Inr (map2 (map2 (\<lambda>a b. \<bar>a - b\<bar>)) logprob ref)"
    and "kl_penalty logprob ref ''mse'' = Inr (map2 (map2 (\<lambda>a b. 0.5 * (a - b)\<^sup>2)) logprob ref)"
    by (simp_all add: kl_penalty_def elementwise_def)
next
  show "kl_penalty logprob ref ''full'' = Inl NotImplementedError"
    by (simp add: kl_penalty_def)
next
  assume "pen \<notin> {''kl'', ''abs'', ''mse''}"
  then show "kl_penalty logprob ref pen = Inl NotImplementedError"
    by (simp add: kl_penalty_def)
next
  assume a0: "ref_log_prob data = Some ref' \<and> apply_kl_penalty data kl_ctrl pen' = Inr (data', kl_ctrl', m)"
  then have r: "ref_log_prob data = Some ref'"
    and a: "apply_kl_penalty data kl_ctrl pen' = Inr (data', kl_ctrl', m)" by simp_all
  let ?rm = "map (slice_last (width (responses data))) (attention_mask data)"
  from a r obtain kl where kl: "kl_penalty (old_log_probs data) ref' pen' = Inr kl"
    by (auto simp: apply_kl_penalty_def Let_def split: sum.splits)
  from a r kl obtain kld where kld: "elementwise times_mask kl ?rm = Inr kld"
    by (auto simp: apply_kl_penalty_def Let_def split: sum.splits)
  then have kld_eq: "kld = map2 (map2 times_mask) kl ?rm"
    by (auto simp: elementwise_def split: if_splits)
  from a r kl kld have fin: "kl_finish data kl_ctrl (kl_value kl_ctrl) kld ?rm = Inr (data', kl_ctrl', m)"
    by (simp add: apply_kl_penalty_def Let_def)
  then have "token_level_rewards data' =
               Some (map2 (map2 (\<lambda>s k. s - kl_value kl_ctrl * k)) (token_level_scores data) kld)
           \<and> critic_kl_coeff m = kl_value kl_ctrl"
    by (auto simp: kl_finish_def elementwise_def split: sum.splits if_splits)
  with kl kld_eq show "\<exists>kl kld. kl_penalty (old_log_probs data) ref' pen' = Inr kl
           \<and> kld = map2 (map2 times_mask) kl ?rm
           \<and> token_level_rewards data' =
               Some (map2 (map2 (\<lambda>s k. s - kl_value kl_ctrl * k)) (token_level_scores data) kld)
           \<and> critic_kl_coeff m = kl_value kl_ctrl"
    by blast
qed

theorem kl_penalty_variants_witness:
  "kl_penalty [[-1, -2]] [[-1.5, -1]] ''kl'' = Inr [[0.5, -1]]
   \<and> kl_penalty [[-1, -2]] [[-1.5, -1]] ''abs'' = Inr [[0.5, 1]]
   \<and> kl_penalty [[-1, -2]] [[-1.5, -1]] ''mse'' = Inr [[0.125, 0.5]]
   \<and> kl_penalty [[-1, -2]] [[-1.5, -1]] ''full'' = Inl NotImplementedError
   \<and> kl_penalty [[-1, -2]] [[-1.5, -1]] ''reverse'' = Inl NotImplementedError
   \<and> apply_kl_penalty
        \<lparr>responses = [[7, 8]], token_level_scores = [[1, 2]],
         attention_mask = [[True, True, False]], old_log_probs = [[-1, -2]],
         ref_log_prob = Some [[-1.5, -1]], token_level_rewards = None\<rparr>
        (FixedKLController 0.1) ''kl''
      = Inr (\<lparr>responses = [[7, 8]], token_level_scores = [[1, 2]],
             attention_mask = [[True, True, False]], old_log_probs = [[-1, -2]],
             ref_log_prob = Some [[-1.5, -1]], token_level_rewards = Some [[0.95, 2]]\<rparr>,
             FixedKLController 0.1,
             \<lparr>critic_kl = 0.5, critic_kl_coeff = 0.1\<rparr>)"
  using kl_penalty_variants [of "[[-1, -2]]" "[[-1.5, -1]]" "''reverse''"
      "\<lparr>responses = [[7, 8]], token_level_scores = [[1, 2]],
         attention_mask = [[True, True, False]], old_log_probs = [[-1, -2]],
         ref_log_prob = Some [[-1.5, -1]], token_level_rewards = None\<rparr>"
      "[[-1.5, -1]]" "FixedKLController 0.1" "''kl''"]
  by (simp add: apply_kl_penalty_def kl_finish_def kl_penalty_def Let_def width_def
      slice_last_def elementwise_def same_shape_def batch_mean_kl_def masked_mean_row_def
      mean_list_def times_mask_def power2_eq_square)

text \<open>
  Claim C10. On a batch without the field \<^verbatim>\<open>ref_log_prob\<close>, \<^verbatim>\<open>apply_kl_penalty\<close> takes
  beta = 0 and a zero KL tensor: the rewards it stores are the scores, the controller is
  updated with current_kl = 0 and the batch size, and the metrics report 0 for both.
  The batch is not empty, its scores have the shape of the response mask and every
  sequence has a response token (or the mean KL is not a number).
\<close>

theorem apply_kl_penalty_no_reference:
  assumes "ref_log_prob data = None"
    and "same_shape (token_level_scores data)
           (map (slice_last (width (responses data))) (attention_mask data))"
    and "token_level_scores data \<noteq> []"
    and "\<forall>ms \<in> set (map (slice_last (width (responses data))) (attention_mask data)). True \<in> set ms"
  shows "apply_kl_penalty data kl_ctrl pen =
           (case update kl_ctrl 0 (length (token_level_scores data)) of
              Inl e \<Rightarrow> Inl e
            | Inr kl_ctrl' \<Rightarrow>
                Inr (data\<lparr>token_level_rewards := Some (token_level_scores data)\<rparr>, kl_ctrl',
                     \<lparr>critic_kl = 0, critic_kl_coeff = 0\<rparr>))"
proof -
  let ?rm = "map (slice_last (width (responses data))) (attention_mask data)"
  from assms(2,3) have ne: "?rm \<noteq> []" by (auto simp: same_shape_def)
  have "apply_kl_penalty data kl_ctrl pen = kl_finish data kl_ctrl 0 (map (map (\<lambda>_. 0)) ?rm) ?rm"
    using assms(1) by (simp add: apply_kl_penalty_def Let_def)
  also have "\<dots> = (case update kl_ctrl 0 (length (token_level_scores data)) of
              Inl e \<Rightarrow> Inl e
            | Inr kl_ctrl' \<Rightarrow>
                Inr (data\<lparr>token_level_rewards := Some (token_level_scores data)\<rparr>, kl_ctrl',
                     \<lparr>critic_kl = 0, critic_kl_coeff = 0\<rparr>))"
    unfolding kl_finish_def
    by (simp only: elementwise_zero[OF assms(2)] batch_mean_kl_zero[OF ne assms(4)] sum.case)
  finally show ?thesis .
qed


theorem apply_kl_penalty_no_reference_witness:
  "apply_kl_penalty
     \<lparr>responses = [[7, 8]], token_level_scores = [[1, 2]],
      attention_mask = [[True, True, False]], old_log_probs = [[-1, -2]],
      ref_log_prob = None, token_level_rewards = None\<rparr>
     (AdaptiveKLController 0.5 2 100) ''kl''
   = Inr (\<lparr>responses = [[7, 8]], token_level_scores = [[1, 2]],
          attention_mask = [[True, True, False]], old_log_probs = [[-1, -2]],
          ref_log_prob = None, token_level_rewards = Some [[1, 2]]\<rparr>,
          AdaptiveKLController 0.499 2 100,
          \<lparr>critic_kl = 0, critic_kl_coeff = 0\<rparr>)"
  using apply_kl_penalty_no_reference [of "\<lparr>responses = [[7, 8]], token_level_scores = [[1, 2]],
      attention_mask = [[True, True, False]], old_log_probs = [[-1, -2]],
      ref_log_prob = None, token_level_rewards = None\<rparr>" "AdaptiveKLController 0.5 2 100" "''kl''"]
  by (simp add: width_def slice_last_def same_shape_def np_clip_def)

subsection \<open>Accuracy filtering\<close>

lemma filter_zip_replicate:
  "length xs = n \<Longrightarrow> map snd (filter fst (zip (replicate n m) xs)) = (if m then xs else [])"
proof (induction xs arbitrary: n)
  case Nil
  then show ?case by simp
next
  case (Cons x xs)
  then obtain k where "n = Suc k" by (cases n) auto
  with Cons show ?case by auto
qed

lemma select_groups:
  "length b = n * length ms \<Longrightarrow>
   map snd (filter fst (zip (concat (map (replicate n) ms)) b)) =
   concat (map (\<lambda>g. if ms ! g then take n (drop (g * n) b) else []) [0..<length ms])"
proof (induction ms arbitrary: b)
  case Nil
  then show ?case by simp
next
  case (Cons m ms)
  let ?hd = "take n b" and ?tl = "drop n b"
  from Cons.prems have lh: "length ?hd = n" and lt: "length ?tl = n * length ms" by auto
  have split: "zip (replicate n m @ concat (map (replicate n) ms)) b =
               zip (replicate n m) ?hd @ zip (concat (map (replicate n) ms)) ?tl"
    by (simp add: zip_append1)
  have idx: "map (\<lambda>g. if (m # ms) ! g then take n (drop (g * n) b) else []) [0..<length (m # ms)] =
          (if m then ?hd else []) #
          map (\<lambda>g. if ms ! g then take n (drop (g * n) ?tl) else []) [0..<length ms]"
    by (simp add: map_upt_Suc del: upt_Suc) (simp add: add.commute)
  have "map snd (filter fst (zip (concat (map (replicate n) (m # ms))) b)) =
        map snd (filter fst (zip (replicate n m) ?hd)) @
        map snd (filter fst (zip (concat (map (replicate n) ms)) ?tl))"
    using split by simp
  also have "\<dots> = (if m then ?hd else []) @
        concat (map (\<lambda>g. if ms ! g then take n (drop (g * n) ?tl) else []) [0..<length ms])"
    using filter_zip_replicate[OF lh] Cons.IH[OF lt] by simp
  finally show ?case unfolding idx by simp
qed

lemma filter_batch_groups:
  assumes "0 < n" and "length reward_tensor = length batch" and "length batch mod n = 0"
  shows "filter_batch cfg reward_tensor batch n = Inr (keep_groups cfg reward_tensor batch n)"
proof -
  let ?k = "length batch div n"
  let ?accs = "map (\<lambda>g. group_mean_acc n g reward_tensor) [0..<?k]"
  let ?ms = "map (\<lambda>a. accuracy_lower_bound cfg \<le> a \<and> a \<le> accuracy_upper_bound cfg) ?accs"
  from assms(3) have dm: "length batch div n * n = length batch" by auto
  then have len: "length batch = n * length ?ms" by (simp add: mult.commute)
  have r: "reshape_rows n (map sum_list reward_tensor) =
           Inr (map (\<lambda>g. group_rows n g (map sum_list reward_tensor)) [0..<?k])"
    using assms by (simp add: reshape_rows_def group_rows_def)
  have lc: "length (concat (map (replicate n) ?ms)) = length batch"
    using dm by (simp add: length_concat comp_def sum_list_triv)
  have "filter_batch cfg reward_tensor batch n = slice_mask (repeat_interleave n ?ms) batch"
    unfolding filter_batch_def r by (simp add: Let_def comp_def group_mean_acc_def)
  also have "\<dots> = Inr (map snd (filter fst (zip (concat (map (replicate n) ?ms)) batch)))"
    using lc by (simp add: slice_mask_def repeat_interleave_def)
  also have "map snd (filter fst (zip (concat (map (replicate n) ?ms)) batch)) =
     concat (map (\<lambda>g. if ?ms ! g then take n (drop (g * n) batch) else []) [0..<length ?ms])"
    by (rule select_groups[OF len])
  also have "\<dots> = keep_groups cfg reward_tensor batch n"
    unfolding keep_groups_def group_rows_def by (rule arg_cong[where f = concat]) (simp)
  finally show ?thesis .
qed


text \<open>
  Claim C5. With accuracy filtering, a whole group of \<open>n\<close> consecutive sequences is kept
  exactly when the mean accuracy of the group lies in the inclusive range
  [lower, upper]; the kept groups stay in their order. For 8 sequences in 2 groups of 4
  with mean accuracies 0.5 and 1.0 and the bounds [0.6, 0.9] no group is kept and the
  result has length 0. The batch consists of whole groups (its length is a multiple of
  \<open>n\<close>, which is positive) and has one accuracy per sequence.
\<close>

theorem filter_keeps_groups_in_range:
  assumes "0 < n" and "length reward_tensor = length batch" and "length batch mod n = 0"
  shows "filter_batch cfg reward_tensor batch n = Inr (keep_groups cfg reward_tensor batch n)
       \<and> (n = 4 \<and> length batch = 8
            \<and> group_mean_acc n 0 reward_tensor = 0.5 \<and> group_mean_acc n 1 reward_tensor = 1
            \<and> accuracy_lower_bound cfg = 0.6 \<and> accuracy_upper_bound cfg = 0.9
          \<longrightarrow> filter_batch cfg reward_tensor batch n = Inr []
              \<and> length (keep_groups cfg reward_tensor batch n) = 0)"
proof (intro conjI impI)
  show eq: "filter_batch cfg reward_tensor batch n = Inr (keep_groups cfg reward_tensor batch n)"
    using assms by (rule filter_batch_groups)
  assume ex: "n = 4 \<and> length batch = 8
            \<and> group_mean_acc n 0 reward_tensor = 0.5 \<and> group_mean_acc n 1 reward_tensor = 1
            \<and> accuracy_lower_bound cfg = 0.6 \<and> accuracy_upper_bound cfg = 0.9"
  then have two: "[0..<length batch div n] = [0, 1]"
    by (simp add: upt_rec)
  from ex have m0: "group_mean_acc n 0 reward_tensor = 0.5"
    and m1: "group_mean_acc n 1 reward_tensor = 1"
    and lo: "accuracy_lower_bound cfg = 0.6" and hi: "accuracy_upper_bound cfg = 0.9"
    by blast+
  have c0: "\<not> (accuracy_lower_bound cfg \<le> group_mean_acc n 0 reward_tensor
                      \<and> group_mean_acc n 0 reward_tensor \<le> accuracy_upper_bound cfg)"
    unfolding m0 lo hi by simp
  have c1: "\<not> (accuracy_lower_bound cfg \<le> group_mean_acc n 1 reward_tensor
                      \<and> group_mean_acc n 1 reward_tensor \<le> accuracy_upper_bound cfg)"
    unfolding m1 lo hi by simp
  have none: "keep_groups cfg reward_tensor batch n = []"
    unfolding keep_groups_def two by (simp add: c0 c1 del: One_nat_def)
  show "filter_batch cfg reward_tensor batch n = Inr []"
    unfolding eq none ..
  show "length (keep_groups cfg reward_tensor batch n) = 0"
    using none by simp
qed

theorem filter_keeps_groups_in_range_witness:
  "filter_batch \<lparr>filter_accuracy = True,
       accuracy_lower_bound = 0.6, accuracy_upper_bound = 0.9, max_prompt_length = 2\<rparr>
     [[1], [0], [1], [0], [1], [1], [1], [1]] [10, 11, 12, 13, 14, 15, 16, 17 :: nat] 4 = Inr []
   \<and> filter_batch \<lparr>filter_accuracy = True,
       accuracy_lower_bound = 0.2, accuracy_upper_bound = 0.8, max_prompt_length = 2\<rparr>
     [[1], [0], [1], [0], [1], [1], [1], [1]] [10, 11, 12, 13, 14, 15, 16, 17 :: nat] 4
       = Inr [10, 11, 12, 13]"
  using filter_keeps_groups_in_range
          [of 4 "[[1], [0], [1], [0], [1], [1], [1], [1]]" "[10, 11, 12, 13, 14, 15, 16, 17 :: nat]"
              "\<lparr>filter_accuracy = True,
       accuracy_lower_bound = 0.6, accuracy_upper_bound = 0.9, max_prompt_length = 2\<rparr>"]
        filter_keeps_groups_in_range
          [of 4 "[[1], [0], [1], [0], [1], [1], [1], [1]]" "[10, 11, 12, 13, 14, 15, 16, 17 :: nat]"
              "\<lparr>filter_accuracy = True,
       accuracy_lower_bound = 0.2, accuracy_upper_bound = 0.8, max_prompt_length = 2\<rparr>"]
  by (simp add: keep_groups_def group_mean_acc_def group_rows_def upt_rec)

subsection \<open>Pairwise ranking accuracy\<close>









lemma py_range_multiple:
  "0 < n \<Longrightarrow> py_range (k * n) n = map (\<lambda>g. g * n) [0..<k]"
proof -
  assume n: "0 < n"
  have "(k * n + n - 1) div n = k"
  proof (cases n)
    case 0
    with n show ?thesis by simp
  next
    case (Suc m)
    have "(k * Suc m + m) div Suc m = (m + k * Suc m) div Suc m"
      by (simp only: add.commute)
    also have "\<dots> = k + m div Suc m"
      by (rule div_mult_self1) simp
    also have "\<dots> = k" by simp
    finally show ?thesis using Suc by simp
  qed
  then show ?thesis by (simp add: py_range_def)
qed















subsection \<open>Generalised advantage estimation without values\<close>

lemma map2_map_same: "map2 f (map g xs) (map h xs) = map (\<lambda>x. f (g x) (h x)) xs"
  by (induction xs) auto

lemma suffix_sums_step:
  assumes "rect L x" and "t < L"
  shows "map2 (\<lambda>r nr. r + nr) (column t x) (suffix_sums (Suc t) x) = suffix_sums t x"
proof -
  have "row ! t + sum_list (drop (Suc t) row) = sum_list (drop t row)" if "row \<in> set x" for row
  proof -
    from that assms have "t < length row" by (simp add: rect_def)
    then have "drop t row = row ! t # drop (Suc t) row" by (simp add: Cons_nth_drop_Suc)
    then show ?thesis by simp
  qed
  then show ?thesis
    by (simp add: column_def suffix_sums_def map2_map_same)
qed

lemma suffix_sums_end: "rect L x \<Longrightarrow> suffix_sums L x = map (\<lambda>_. 0) x"
  by (simp add: suffix_sums_def rect_def)

lemma rev_upt_step: "j < L \<Longrightarrow> rev [j..<L] = rev [Suc j..<L] @ [j]"
  by (simp add: upt_conv_Cons)

lemma reinforce_fold:
  assumes r: "rect L rewards" and j: "j \<le> L"
  shows "fold (reinforce_step rewards 1 L) (rev [j..<L]) [] = map (\<lambda>t. suffix_sums t rewards) [j..<L]"
  using j
proof (induction j rule: inc_induct)
  case base
  then show ?case by simp
next
  case (step n)
  have nxt: "(if n = L - 1 then map (\<lambda>_. 0) rewards
             else hd (map (\<lambda>t. suffix_sums t rewards) [Suc n..<L])) = suffix_sums (Suc n) rewards"
  proof (cases "n = L - 1")
    case True
    with step.hyps have "Suc n = L" by simp
    with True r show ?thesis by (simp add: suffix_sums_end)
  next
    case False
    with step.hyps have "Suc n < L" by simp
    with False show ?thesis by (simp add: upt_conv_Cons)
  qed
  have "fold (reinforce_step rewards 1 L) (rev [n..<L]) [] =
        reinforce_step rewards 1 L n (map (\<lambda>t. suffix_sums t rewards) [Suc n..<L])"
    using step by (simp add: rev_upt_step)
  also have "\<dots> = suffix_sums n rewards # map (\<lambda>t. suffix_sums t rewards) [Suc n..<L]"
    unfolding reinforce_step_def Let_def nxt
    using suffix_sums_step[OF r step.hyps(2)] by simp
  also have "\<dots> = map (\<lambda>t. suffix_sums t rewards) [n..<L]"
    using step.hyps by (simp add: upt_conv_Cons)
  finally show ?case .
qed

lemma column_zeros: "rect L x \<Longrightarrow> t < L \<Longrightarrow> column t (map (map (\<lambda>_. 0)) x) = map (\<lambda>_. 0) x"
  by (simp add: column_def rect_def)

lemma gae_fold:
  assumes r: "rect L rewards" and j: "j \<le> L"
  shows "fold (gae_step rewards (map (map (\<lambda>_. 0)) rewards) 1 1 L) (rev [j..<L])
           (map (\<lambda>_. 0) rewards, []) =
         (suffix_sums j rewards, rev (map (\<lambda>t. suffix_sums t rewards) [j..<L]))"
  using j
proof (induction j rule: inc_induct)
  case base
  then show ?case using r by (simp add: suffix_sums_end)
next
  case (step n)
  let ?z = "map (map (\<lambda>_. 0)) rewards"
  have nxt: "(if n < L - 1 then column (n + 1) ?z else map (\<lambda>_. 0) rewards) = map (\<lambda>_. 0) rewards"
    using step.hyps r by (auto simp: column_zeros)
  have delta: "map2 (-) (map2 (\<lambda>r nv. r + 1 * nv) (column n rewards) (map (\<lambda>_. 0) rewards))
                 (column n ?z) = column n rewards"
    unfolding column_zeros[OF r step.hyps(2)]
    by (simp add: column_def map2_map_same)
  have "fold (gae_step rewards ?z 1 1 L) (rev [n..<L]) (map (\<lambda>_. 0) rewards, []) =
        gae_step rewards ?z 1 1 L n
          (suffix_sums (Suc n) rewards, rev (map (\<lambda>t. suffix_sums t rewards) [Suc n..<L]))"
    using step by (simp add: rev_upt_step)
  also have "\<dots> = (suffix_sums n rewards,
                   rev (map (\<lambda>t. suffix_sums t rewards) [Suc n..<L]) @ [suffix_sums n rewards])"
    unfolding gae_step_def Let_def nxt delta fst_conv snd_conv
    using suffix_sums_step[OF r step.hyps(2)] by simp
  also have "\<dots> = (suffix_sums n rewards, rev (map (\<lambda>t. suffix_sums t rewards) [n..<L]))"
    using step.hyps by (simp add: upt_conv_Cons)
  finally show ?case .
qed

lemma stack_suffix_sums:
  assumes "rect L rewards" and "0 < L"
  shows "stack_dim1 (length rewards) (map (\<lambda>t. suffix_sums t rewards) [0..<L]) =
         Inr (map rev_cumsum rewards)"
proof -
  have "map (\<lambda>i. map (\<lambda>c. c ! i) (map (\<lambda>t. suffix_sums t rewards) [0..<L])) [0..<length rewards]
        = map rev_cumsum rewards"
  proof (rule nth_equalityI)
    show "length (map (\<lambda>i. map (\<lambda>c. c ! i) (map (\<lambda>t. suffix_sums t rewards) [0..<L]))
            [0..<length rewards]) = length (map rev_cumsum rewards)" by simp
  next
    fix i
    assume "i < length (map (\<lambda>i. map (\<lambda>c. c ! i) (map (\<lambda>t. suffix_sums t rewards) [0..<L]))
            [0..<length rewards])"
    then have i: "i < length rewards" by simp
    then have "length (rewards ! i) = L" using assms(1) by (simp add: rect_def)
    then show "map (\<lambda>i. map (\<lambda>c. c ! i) (map (\<lambda>t. suffix_sums t rewards) [0..<L]))
            [0..<length rewards] ! i = map rev_cumsum rewards ! i"
      using i by (simp add: suffix_sums_def rev_cumsum_def)
  qed
  then show ?thesis using assms(2) by (simp add: stack_dim1_def)
qed

lemma width_rect: "rect L x \<Longrightarrow> x \<noteq> [] \<Longrightarrow> width x = L"
  by (cases x) (simp_all add: width_def rect_def)

lemma elementwise_add_zeros:
  "same_shape (a :: tensor) x \<Longrightarrow> elementwise (+) a (map (map (\<lambda>_. 0)) x) = Inr a"
proof -
  have row: "length r = length m \<Longrightarrow> map2 (+) r (map (\<lambda>_. 0::real) m) = r" for r :: "real list" and m :: "'b list"
    by (induction r m rule: list_induct2) auto
  have "map length a = map length x \<Longrightarrow> map2 (map2 (+)) a (map (map (\<lambda>_. 0)) x) = a"
  proof (induction a arbitrary: x)
    case Nil
    then show ?case by simp
  next
    case (Cons r rs)
    then obtain m ms where "x = m # ms" by (cases x) auto
    with Cons show ?case by (simp add: row)
  qed
  then show "same_shape a x \<Longrightarrow> elementwise (+) a (map (map (\<lambda>_. 0)) x) = Inr a"
    by (simp add: elementwise_def same_shape_def comp_def)
qed

lemma shape_rev_cumsum: "same_shape (map rev_cumsum x) x"
  by (simp add: same_shape_def rev_cumsum_def comp_def)

lemma reinforce_returns:
  assumes "rect L rewards" and "0 < L" and "rewards \<noteq> []"
  shows "compute_reinforce_returns W rewards eos_mask 1 =
           Inr (W (map rev_cumsum rewards) eos_mask, map rev_cumsum rewards)"
  unfolding compute_reinforce_returns_def Let_def width_rect[OF assms(1,3)]
    reinforce_fold[OF assms(1) le0] stack_suffix_sums[OF assms(1,2)]
  by simp

lemma gae_returns:
  assumes "rect L rewards" and "0 < L" and "rewards \<noteq> []"
  shows "compute_gae_advantage_return W rewards (map (map (\<lambda>_. 0)) rewards) eos_mask 1 1 =
           Inr (W (map rev_cumsum rewards) eos_mask, map rev_cumsum rewards)"
proof -
  have sh: "same_shape rewards (map (map (\<lambda>_. 0)) rewards)"
    by (simp add: same_shape_def comp_def)
  show ?thesis
    unfolding compute_gae_advantage_return_def Let_def width_rect[OF assms(1,3)]
      gae_fold[OF assms(1) le0] snd_conv rev_rev_ident stack_suffix_sums[OF assms(1,2)]
    using sh by (simp add: elementwise_add_zeros[OF shape_rev_cumsum])
qed

text \<open>
  Claim C6. For every reward tensor (rectangular, with at least one row and one column)
  and every mask, \<^verbatim>\<open>compute_gae_advantage_return\<close> with values all zero, \<open>gamma = 1\<close> and
  \<open>lam = 1\<close> returns, as returns, the reverse cumulative sum of the rewards of each row:
  the result of \<^verbatim>\<open>compute_reinforce_returns\<close> with \<open>gamma = 1\<close>.
\<close>

theorem gae_zero_values_is_reinforce:
  assumes "rect L rewards" and "0 < L" and "rewards \<noteq> []"
  shows "compute_gae_advantage_return W rewards (zeros_like rewards) eos_mask 1 1 =
           Inr (W (map rev_cumsum rewards) eos_mask, map rev_cumsum rewards)
       \<and> compute_reinforce_returns W rewards eos_mask 1 =
           Inr (W (map rev_cumsum rewards) eos_mask, map rev_cumsum rewards)
       \<and> compute_gae_advantage_return W rewards (zeros_like rewards) eos_mask 1 1 =
           compute_reinforce_returns W rewards eos_mask 1"
proof -
  have g: "compute_gae_advantage_return W rewards (zeros_like rewards) eos_mask 1 1 =
           Inr (W (map rev_cumsum rewards) eos_mask, map rev_cumsum rewards)"
    unfolding zeros_like_def using assms by (rule gae_returns)
  have r: "compute_reinforce_returns W rewards eos_mask 1 =
           Inr (W (map rev_cumsum rewards) eos_mask, map rev_cumsum rewards)"
    using assms by (rule reinforce_returns)
  from g r show ?thesis by simp
qed

theorem gae_zero_values_is_reinforce_witness:
  "compute_gae_advantage_return (\<lambda>a m. a) [[1, 2, 3], [4, 5, 6]] (zeros_like [[1, 2, 3], [4, 5, 6 :: real]])
     [[True, True, False], [True, True, True]] 1 1
     = Inr ([[6, 5, 3], [15, 11, 6]], [[6, 5, 3], [15, 11, 6]])
   \<and> compute_reinforce_returns (\<lambda>a m. a) [[1, 2, 3], [4, 5, 6]]
     [[True, True, False], [True, True, True]] 1
     = Inr ([[6, 5, 3], [15, 11, 6]], [[6, 5, 3], [15, 11, 6]])"
  using gae_zero_values_is_reinforce
          [of 3 "[[1, 2, 3], [4, 5, 6]]" "\<lambda>a m. a" "[[True, True, False], [True, True, True]]"]
  by (simp add: rect_def rev_cumsum_def upt_rec)

subsection \<open>The overflow buffer\<close>

lemma py_range3_groups:
  assumes "0 < n" and "b \<le> k"
  shows "py_range3 (b * n) (k * n) n = map (\<lambda>g. g * n) [b..<k]"
proof -
  have "k * n - b * n = (k - b) * n" by (simp add: diff_mult_distrib)
  moreover have "((k - b) * n + n - 1) div n = k - b"
  proof -
    from assms(1) obtain m where m: "n = Suc m" by (cases n) auto
    have "((k - b) * Suc m + m) div Suc m = (m + (k - b) * Suc m) div Suc m"
      by (simp only: add.commute)
    also have "\<dots> = (k - b) + m div Suc m"
      by (rule div_mult_self1) simp
    also have "\<dots> = k - b" by simp
    finally show ?thesis using m by simp
  qed
  ultimately have "py_range3 (b * n) (k * n) n = map (\<lambda>j. b * n + j * n) [0..<k - b]"
    by (simp add: py_range3_def)
  also have "\<dots> = map (\<lambda>g. g * n) (map (\<lambda>j. b + j) [0..<k - b])"
    by (simp add: add_mult_distrib)
  also have "map (\<lambda>j. b + j) [0..<k - b] = [b..<k]"
    using assms(2) by (simp add: map_add_upt add.commute)
  finally show ?thesis .
qed

lemma concat_replicate_replicate: "concat (replicate m (replicate n x)) = replicate (m * n) x"
  by (induction m) (simp_all add: replicate_add)

lemma buffer_mask_blocks:
  assumes "b \<le> k"
  shows "repeat_interleave n (map (\<lambda>g. g < b) [0..<k]) =
         replicate (b * n) True @ replicate ((k - b) * n) False"
proof -
  have "[0..<k] = [0..<b] @ [b..<k]"
    using assms by (metis le_add_diff_inverse upt_add_eq_append zero_le)
  moreover have "map (\<lambda>g. g < b) [0..<b] = replicate b True"
  proof -
    have "map (\<lambda>g. g < b) [0..<b] = map (\<lambda>_. True) [0..<b]" by (rule map_cong) auto
    then show ?thesis by (simp add: map_replicate_const)
  qed
  moreover have "map (\<lambda>g. g < b) [b..<k] = replicate (k - b) False"
  proof -
    have "map (\<lambda>g. g < b) [b..<k] = map (\<lambda>_. False) [b..<k]" by (rule map_cong) auto
    then show ?thesis by (simp add: map_replicate_const)
  qed
  ultimately show ?thesis
    by (simp add: repeat_interleave_def concat_replicate_replicate)
qed

lemma slice_mask_prefix:
  assumes "length batch = a + c"
  shows "slice_mask (replicate a True @ replicate c False) batch = Inr (take a batch)"
proof -
  have la: "length (take a batch) = a" and lc: "length (drop a batch) = c"
    using assms by simp_all
  have "map snd (filter fst (zip (replicate a True @ replicate c False) batch)) =
        map snd (filter fst (zip (replicate a True) (take a batch))) @
        map snd (filter fst (zip (replicate c False) (drop a batch)))"
    by (simp add: zip_append1)
  also have "\<dots> = take a batch"
    unfolding filter_zip_replicate[OF la] filter_zip_replicate[OF lc] by simp
  finally show ?thesis using assms by (simp add: slice_mask_def)
qed

lemma add_to_buffer_groups:
  assumes n: "0 < n" and len: "length batch = k * n" and over: "batch_size \<le> k"
  shows "add_to_buffer cfg buffer batch batch_size n =
           Inr (take (batch_size * n) batch,
                buffer @ map (\<lambda>g. prompt_only cfg (batch ! (g * n))) [batch_size..<k])"
proof -
  have groups: "length batch div n = k" using n len by simp
  have rng: "py_range3 (batch_size * n) (k * n) n = map (\<lambda>g. g * n) [batch_size..<k]"
    using n over by (rule py_range3_groups)
  have inb: "\<not> (\<exists>i \<in> set (map (\<lambda>g. g * n) [batch_size..<k]). length batch \<le> i)"
    using n len by (auto simp: not_le)
  have sl: "slice_indices (map (\<lambda>g. g * n) [batch_size..<k]) batch =
            Inr (map (\<lambda>g. batch ! (g * n)) [batch_size..<k])"
    unfolding slice_indices_def using inb by (simp add: comp_def)
  have "length batch = batch_size * n + (k - batch_size) * n"
    using len over by (simp add: add_mult_distrib[symmetric])
  then have keep: "slice_mask (repeat_interleave n (map (\<lambda>g. g < batch_size) [0..<k])) batch =
             Inr (take (batch_size * n) batch)"
    unfolding buffer_mask_blocks[OF over] by (rule slice_mask_prefix)
  show ?thesis
    unfolding add_to_buffer_def groups Let_def rng sl
    using n keep by (simp add: comp_def prompt_only_def loader_add_to_buffer_def)
qed

text \<open>
  Claim C2, as the source has it. When the batch holds \<open>k\<close> whole groups of \<open>n\<close> sequences
  and \<open>k\<close> exceeds \<open>batch_size\<close>, \<^verbatim>\<open>add_to_buffer\<close> keeps exactly the first \<open>batch_size\<close>
  groups, in their order, and appends to the buffer one prompt-only entry for every
  excess group: the three generation fields of the first row of the group, cut to the
  maximal prompt length. For 12 sequences with \<open>n = 4\<close> and a target of 8, the 4 sequences
  of the one excess group leave the batch, the buffer receives exactly 1 entry, and the
  returned batch has length 8.
\<close>

theorem add_to_buffer_keeps_first_groups:
  assumes "0 < n" and "length batch = k * n" and "batch_size < k"
  shows "add_to_buffer cfg buffer batch batch_size n =
           Inr (take (batch_size * n) batch,
                buffer @ map (\<lambda>g. prompt_only cfg (batch ! (g * n))) [batch_size..<k])
       \<and> length (take (batch_size * n) batch) = batch_size * n
       \<and> length (map (\<lambda>g. prompt_only cfg (batch ! (g * n))) [batch_size..<k]) = k - batch_size
       \<and> prompt_input_ids (prompt_only cfg row) = take (max_prompt_length cfg) (input_ids row)
       \<and> prompt_attention_mask (prompt_only cfg row) =
           take (max_prompt_length cfg) (seq_attention_mask row)
       \<and> prompt_position_ids (prompt_only cfg row) = take (max_prompt_length cfg) (position_ids row)
       \<and> (k = 3 \<and> n = 4 \<and> batch_size = 2 \<longrightarrow>
            add_to_buffer cfg buffer batch batch_size n =
              Inr (take 8 batch, buffer @ [prompt_only cfg (batch ! 8)])
            \<and> length (take 8 batch) = 8)"
proof -
  from assms(3) have le: "batch_size \<le> k" by simp
  have main: "add_to_buffer cfg buffer batch batch_size n =
           Inr (take (batch_size * n) batch,
                buffer @ map (\<lambda>g. prompt_only cfg (batch ! (g * n))) [batch_size..<k])"
    using assms(1,2) le by (rule add_to_buffer_groups)
  have kept: "length (take (batch_size * n) batch) = batch_size * n"
    using assms(2) le by simp
  have fields: "prompt_input_ids (prompt_only cfg row) = take (max_prompt_length cfg) (input_ids row)
       \<and> prompt_attention_mask (prompt_only cfg row) =
           take (max_prompt_length cfg) (seq_attention_mask row)
       \<and> prompt_position_ids (prompt_only cfg row) = take (max_prompt_length cfg) (position_ids row)"
    by (simp add: prompt_only_def slice_batch_def select_prompt_keys_def)
  have ex: "add_to_buffer cfg buffer batch batch_size n =
              Inr (take 8 batch, buffer @ [prompt_only cfg (batch ! 8)])
            \<and> length (take 8 batch) = 8"
    if "k = 3 \<and> n = 4 \<and> batch_size = 2"
  proof -
    from that have k: "k = 3" and n: "n = 4" and b: "batch_size = 2" by simp_all
    have "[batch_size..<k] = [2]" unfolding k b by (simp add: upt_rec)
    with main kept show ?thesis unfolding n b by simp
  qed
  from main kept fields ex show ?thesis by simp
qed

theorem add_to_buffer_keeps_first_groups_witness:
  "add_to_buffer overshoot_config [] overshoot_batch 2 4 =
     Inr (take 8 overshoot_batch, [prompt_only overshoot_config (overshoot_batch ! 8)])
   \<and> length (take 8 overshoot_batch) = 8"
  using add_to_buffer_keeps_first_groups
          [of 4 overshoot_batch 3 2 overshoot_config "[]" "overshoot_batch ! 8"]
  by (simp add: overshoot_batch_def)

text \<open>
  The example of claim C2 as it is stated: of the excess group of 4 sequences the buffer
  receives one entry, the prompt of the group, and not 4.
\<close>

theorem add_to_buffer_one_entry_for_group:
  "add_to_buffer overshoot_config [] overshoot_batch 2 4 =
     Inr (take 8 overshoot_batch,
          [\<lparr>prompt_input_ids = [8, 108], prompt_attention_mask = [True, True],
            prompt_position_ids = [0, 1]\<rparr>])
   \<and> length (snd (projr (add_to_buffer overshoot_config [] overshoot_batch 2 4))) \<noteq> 4"
  by code_simp

subsection \<open>A partial batch ends the epoch\<close>

lemma collect_short_exhausted:
  "collect P cfg n goal valid bb pending = Inr (valid', pending') \<Longrightarrow> length valid' < goal
     \<Longrightarrow> pending' = []"
proof (induction pending arbitrary: valid bb)
  case Nil
  then show ?case by simp
next
  case (Cons b rest)
  show ?case
  proof (cases "length valid < goal")
    case True
    with Cons.prems(1) obtain rb where
      "collect P cfg n goal (valid @ rb) [] rest = Inr (valid', pending')"
      by (auto simp: Let_def split: sum.splits if_splits)
    then show ?thesis using Cons.IH Cons.prems(2) by blast
  next
    case False
    with Cons.prems show ?thesis by simp
  qed
qed


lemma fit_iteration_short:
  assumes c: "collect P cfg n (batch_size * n) [] (fst (drain_buffer P batch_size st)) (loader_pending st)
                = Inr (valid, pending')"
    and short: "length valid < batch_size * n"
  shows "fit_iteration P cfg batch_size n st = Inr (Break (abandoned P batch_size st))"
proof -
  from c short have "pending' = []" by (rule collect_short_exhausted)
  with c short show ?thesis
    by (simp add: fit_iteration_def abandoned_def split_beta)
qed

lemma run_epoch_short:
  assumes "fit_iteration P cfg batch_size n st = Inr (Break st')"
  shows "run_epoch P cfg batch_size n st = Some (Inr st')"
  using assms by (subst run_epoch.simps) simp

text \<open>
  Claim C8. When the collection loop ends with fewer valid sequences than
  \<open>batch_size * n_samples\<close>, the data source is exhausted, the round ends the loop of the
  epoch with a \<^verbatim>\<open>break\<close>, and the epoch returns normally: no exception, and no step of
  scoring, advantage estimation or update has run (the state of the workers and the step
  counter are as before, whatever the training step would have done). In particular this
  is what happens when no batch is left at the start of a round.
\<close>

theorem partial_batch_breaks_epoch:
  "(collect P cfg n (batch_size * n) [] (fst (drain_buffer P batch_size st)) (loader_pending st)
       = Inr (valid, pending') \<and> length valid < batch_size * n
     \<longrightarrow> pending' = []
         \<and> fit_iteration P cfg batch_size n st = Inr (Break (abandoned P batch_size st))
         \<and> run_epoch P cfg batch_size n st = Some (Inr (abandoned P batch_size st)))
   \<and> (loader_pending st = [] \<and> 0 < batch_size * n
     \<longrightarrow> fit_iteration P cfg batch_size n st = Inr (Break (abandoned P batch_size st))
         \<and> run_epoch P cfg batch_size n st = Some (Inr (abandoned P batch_size st)))
   \<and> world (abandoned P batch_size st) = world st
   \<and> global_steps (abandoned P batch_size st) = global_steps st"
proof (intro conjI impI)
  assume a: "collect P cfg n (batch_size * n) [] (fst (drain_buffer P batch_size st)) (loader_pending st)
       = Inr (valid, pending') \<and> length valid < batch_size * n"
  then show "pending' = []" by (blast intro: collect_short_exhausted)
  from a show it: "fit_iteration P cfg batch_size n st = Inr (Break (abandoned P batch_size st))"
    by (blast intro: fit_iteration_short)
  then show "run_epoch P cfg batch_size n st = Some (Inr (abandoned P batch_size st))"
    by (rule run_epoch_short)
next
  assume e: "loader_pending st = [] \<and> 0 < batch_size * n"
  then have "collect P cfg n (batch_size * n) [] (fst (drain_buffer P batch_size st)) (loader_pending st)
       = Inr ([], [])" by simp
  moreover from e have "length ([] :: 'a rollout list) < batch_size * n" by simp
  ultimately show it: "fit_iteration P cfg batch_size n st = Inr (Break (abandoned P batch_size st))"
    by (rule fit_iteration_short)
  then show "run_epoch P cfg batch_size n st = Some (Inr (abandoned P batch_size st))"
    by (rule run_epoch_short)
next
  show "world (abandoned P batch_size st) = world st" by (simp add: abandoned_def)
  show "global_steps (abandoned P batch_size st) = global_steps st" by (simp add: abandoned_def)
qed

theorem partial_batch_breaks_epoch_witness:
  "fit_iteration failing_workers overshoot_config 2 2 last_prompts =
     Inr (Break (last_prompts\<lparr>loader_pending := []\<rparr>))
   \<and> run_epoch failing_workers overshoot_config 2 2 last_prompts =
     Some (Inr (last_prompts\<lparr>loader_pending := []\<rparr>))"
  using partial_batch_breaks_epoch [of failing_workers overshoot_config 2 2 last_prompts
                    "two_samples (hd (loader_pending last_prompts))" "[]"]
  by (simp add: last_prompts_def failing_workers_def overshoot_config_def two_samples_def
      drain_buffer_def abandoned_def numeral_2_eq_2)


subsection \<open>Returns from implicit values\<close>

lemma adv_at_step: "t < length row \<Longrightarrow> adv_at lam row t = row ! t + lam * adv_at lam row (Suc t)"
proof -
  assume "t < length row"
  then have "drop t row = row ! t # drop (Suc t) row" by (simp add: Cons_nth_drop_Suc)
  then show ?thesis by (simp add: adv_at_def)
qed

lemma adv_at_end: "length row \<le> t \<Longrightarrow> adv_at lam row t = 0"
  by (simp add: adv_at_def)

lemma backward_nth: "backward lam row = map (adv_at lam row) [0..<length row]"
proof (induction row)
  case Nil
  then show ?case by simp
next
  case (Cons v vs)
  have shift: "adv_at lam (v # vs) (Suc t) = adv_at lam vs t" for t
    by (simp add: adv_at_def)
  have "map (adv_at lam (v # vs)) [0..<length (v # vs)] =
        adv_at lam (v # vs) 0 # map (\<lambda>t. adv_at lam (v # vs) (Suc t)) [0..<length vs]"
    by (simp add: map_upt_Suc del: upt_Suc)
  also have "\<dots> = adv_at lam (v # vs) 0 # backward lam vs"
    unfolding shift using Cons.IH by simp
  also have "adv_at lam (v # vs) 0 = v + lam * (case backward lam vs of [] \<Rightarrow> 0 | a # _ \<Rightarrow> a)"
    by (simp add: adv_at_def)
  finally show ?case by simp
qed

lemma gae_value_fold:
  assumes r: "rect L q" and j: "j \<le> L"
  shows "fold (gae_value_step q lam) (rev [j..<L]) (map (\<lambda>_. 0) q, []) =
         (map (\<lambda>row. adv_at lam row j) q,
          rev (map (\<lambda>t. map (\<lambda>row. adv_at lam row t) q) [j..<L]))"
  using j
proof (induction j rule: inc_induct)
  case base
  have "map (\<lambda>row. adv_at lam row L) q = map (\<lambda>_. 0) q"
    by (rule map_cong) (use r in \<open>simp_all add: rect_def adv_at_end\<close>)
  then show ?case by simp
next
  case (step n)
  have col: "map2 (\<lambda>d l. d + lam * l) (column n q) (map (\<lambda>row. adv_at lam row (Suc n)) q) =
             map (\<lambda>row. adv_at lam row n) q"
  proof -
    have "row ! n + lam * adv_at lam row (Suc n) = adv_at lam row n" if "row \<in> set q" for row
      using that r step.hyps(2) by (simp add: rect_def adv_at_step)
    then show ?thesis by (simp add: column_def map2_map_same)
  qed
  have "fold (gae_value_step q lam) (rev [n..<L]) (map (\<lambda>_. 0) q, []) =
        gae_value_step q lam n
          (map (\<lambda>row. adv_at lam row (Suc n)) q,
           rev (map (\<lambda>t. map (\<lambda>row. adv_at lam row t) q) [Suc n..<L]))"
    using step by (simp add: rev_upt_step)
  also have "\<dots> = (map (\<lambda>row. adv_at lam row n) q,
                   rev (map (\<lambda>t. map (\<lambda>row. adv_at lam row t) q) [Suc n..<L])
                   @ [map (\<lambda>row. adv_at lam row n) q])"
    unfolding gae_value_step_def Let_def fst_conv snd_conv col ..
  also have "\<dots> = (map (\<lambda>row. adv_at lam row n) q,
                   rev (map (\<lambda>t. map (\<lambda>row. adv_at lam row t) q) [n..<L]))"
    using step.hyps by (simp add: upt_conv_Cons)
  finally show ?case .
qed

lemma stack_backward:
  assumes "rect L q" and "0 < L"
  shows "stack_dim1 (length q) (map (\<lambda>t. map (\<lambda>row. adv_at lam row t) q) [0..<L]) =
         Inr (map (backward lam) q)"
proof -
  have "map (\<lambda>i. map (\<lambda>c. c ! i) (map (\<lambda>t. map (\<lambda>row. adv_at lam row t) q) [0..<L])) [0..<length q]
        = map (backward lam) q"
  proof (rule nth_equalityI)
    show "length (map (\<lambda>i. map (\<lambda>c. c ! i) (map (\<lambda>t. map (\<lambda>row. adv_at lam row t) q) [0..<L]))
            [0..<length q]) = length (map (backward lam) q)" by simp
  next
    fix i
    assume "i < length (map (\<lambda>i. map (\<lambda>c. c ! i) (map (\<lambda>t. map (\<lambda>row. adv_at lam row t) q) [0..<L]))
            [0..<length q])"
    then have i: "i < length q" by simp
    then have "length (q ! i) = L" using assms(1) by (simp add: rect_def)
    then show "map (\<lambda>i. map (\<lambda>c. c ! i) (map (\<lambda>t. map (\<lambda>row. adv_at lam row t) q) [0..<L]))
            [0..<length q] ! i = map (backward lam) q ! i"
      using i by (simp add: backward_nth)
  qed
  then show ?thesis using assms(2) by (simp add: stack_dim1_def)
qed

lemma close_row_gt:
  assumes "length gt_row = L" and "length q_row = L" and "vrl \<le> L" and "0 < L"
  shows "close_row True gt_row q_row vrl = Inr (closed_values gt_row q_row vrl)"
proof (cases "vrl = 0")
  case True
  with assms show ?thesis
    by (simp add: close_row_def closed_values_def py_index_def)
next
  case False
  then obtain m where m: "vrl = Suc m" by (cases vrl) auto
  with assms have mL: "m < L" by simp
  have idx: "py_index L (int vrl - 1) = Some m"
    using m mL by (simp add: py_index_def)
  have pre: "py_prefix (int vrl - 1) q_row = take m q_row"
    using m by (simp add: py_prefix_def)
  have "take (Suc m) (q_row[m := x]) = take m q_row @ [x]" for x
    using mL assms(2) by (simp add: take_Suc_conv_app_nth)
  then show ?thesis
    using assms(1,2) m idx pre by (simp add: close_row_def closed_values_def)
qed

lemma length_closed_values:
  "length q_row = L \<Longrightarrow> vrl \<le> L \<Longrightarrow> length (closed_values gt_row q_row vrl) = L"
  by (auto simp: closed_values_def)

lemma first_error_all_Inr: "first_error (map (\<lambda>x. Inr (f x)) xs) = Inr (map f xs)"
  by (induction xs) auto

lemma vrl_le:
  "length attention_row = p + L \<Longrightarrow> valid_response_length p attention_row \<le> L"
  unfolding valid_response_length_def
  by (metis add_diff_cancel_left' count_le_length length_drop)


lemma gae_value_returns_gt:
  assumes gt: "rect L (gt_scores data)" and rm: "rect L (rm_scores data)" and L: "0 < L"
    and ne: "gt_scores data \<noteq> []"
    and lr: "length (rm_scores data) = length (gt_scores data)"
    and la: "length (attention_mask data) = length (gt_scores data)"
    and att: "rect (width (prompts data) + L) (attention_mask data)"
    and use: "prime_use_gt config"
  shows "compute_gae_value_returns W data eos_mask n config lam gamma =
           Inr (W (map (backward lam) (implicit_values data)) eos_mask,
                map (\<lambda>row. replicate L (sum_list row)) (gt_scores data))"
proof -
  let ?gt = "gt_scores data" and ?q = "rm_scores data" and ?p = "width (prompts data)"
  let ?vrl = "map (valid_response_length ?p) (attention_mask data)"
  let ?N = "length ?q"
  have sh: "same_shape ?gt ?q"
  proof -
    have "map length ?gt = map (\<lambda>_. L) ?gt" by (rule map_cong) (use gt in \<open>simp_all add: rect_def\<close>)
    moreover have "map length ?q = map (\<lambda>_. L) ?q" by (rule map_cong) (use rm in \<open>simp_all add: rect_def\<close>)
    ultimately show ?thesis using lr by (simp add: same_shape_def map_replicate_const)
  qed
  have lv: "length ?vrl = ?N" using la lr by simp
  have row: "close_row (prime_use_gt config) (?gt ! i) (?q ! i) (?vrl ! i) =
             Inr (closed_values (?gt ! i) (?q ! i) (?vrl ! i))" if i: "i < ?N" for i
  proof -
    from i lr have "?gt ! i \<in> set ?gt" by simp
    with gt have a: "length (?gt ! i) = L" by (simp add: rect_def)
    from i have "?q ! i \<in> set ?q" by simp
    with rm have b: "length (?q ! i) = L" by (simp add: rect_def)
    from i la lr have "attention_mask data ! i \<in> set (attention_mask data)" by simp
    with att have "length (attention_mask data ! i) = ?p + L" by (simp add: rect_def)
    then have "valid_response_length ?p (attention_mask data ! i) \<le> L" by (rule vrl_le)
    then have c: "?vrl ! i \<le> L" using i la lr by simp
    show ?thesis using close_row_gt[OF a b c L] use by simp
  qed
  have rows: "map (\<lambda>i. close_row (prime_use_gt config) (?gt ! i) (?q ! i) (?vrl ! i)) [0..<?N] =
              map (\<lambda>i. Inr (closed_values (?gt ! i) (?q ! i) (?vrl ! i))) [0..<?N]"
    by (rule map_cong) (use row in simp_all)
  have vals: "map (\<lambda>i. closed_values (?gt ! i) (?q ! i) (?vrl ! i)) [0..<?N] = implicit_values data"
    unfolding implicit_values_def
    by (rule nth_equalityI) (use la lr in \<open>simp_all add: lv\<close>)
  have fe: "first_error (map (\<lambda>i. close_row (prime_use_gt config) (?gt ! i) (?q ! i) (?vrl ! i))
              [0..<?N]) = Inr (implicit_values data)"
    unfolding rows first_error_all_Inr vals ..
  have rq: "rect L (implicit_values data)"
    unfolding rect_def
  proof
    fix r assume "r \<in> set (implicit_values data)"
    then obtain i where i: "i < ?N" and r: "r = closed_values (?gt ! i) (?q ! i) (?vrl ! i)"
      unfolding vals[symmetric] by auto
    from i have "?q ! i \<in> set ?q" by simp
    with rm have b: "length (?q ! i) = L" by (simp add: rect_def)
    from i la lr have "attention_mask data ! i \<in> set (attention_mask data)" by simp
    with att have "length (attention_mask data ! i) = ?p + L" by (simp add: rect_def)
    then have "valid_response_length ?p (attention_mask data ! i) \<le> L" by (rule vrl_le)
    then have c: "?vrl ! i \<le> L" using i la lr by simp
    show "length r = L" unfolding r using b c by (rule length_closed_values)
  qed
  have w: "width ?gt = L" using gt ne by (rule width_rect)
  have ret: "map (\<lambda>row. map (\<lambda>_. sum_list row) row) ?gt = map (\<lambda>row. replicate L (sum_list row)) ?gt"
    by (rule map_cong) (use gt in \<open>simp_all add: rect_def map_replicate_const\<close>)
  have lq: "length (implicit_values data) = ?N"
    unfolding vals[symmetric] by simp
  show ?thesis
    unfolding compute_gae_value_returns_def Let_def w fe
    using sh lv
    by (simp add: gae_value_fold[OF rq le0] stack_backward[OF rq L] ret)
qed


lemma backward_recurrence:
  assumes "t < length vs"
  shows "backward lam vs ! t = vs ! t + lam * (if Suc t < length vs then backward lam vs ! Suc t else 0)"
proof -
  have "backward lam vs ! t = adv_at lam vs t"
    using assms by (simp add: backward_nth)
  also have "\<dots> = vs ! t + lam * adv_at lam vs (Suc t)"
    using assms by (rule adv_at_step)
  also have "adv_at lam vs (Suc t) = (if Suc t < length vs then backward lam vs ! Suc t else 0)"
    by (simp add: backward_nth[of lam vs] adv_at_end del: upt_Suc)
  finally show ?thesis .
qed

text \<open>
  Claim C3, as the source has it. When \<^verbatim>\<open>prime_use_gt\<close> is set, the estimator overwrites,
  for every sequence, the implicit value at the last valid response position with the
  ground-truth score there minus the sum of the values before it, sets the positions from
  the valid length on to 0, runs the recurrence \<open>A\<^sub>t = v\<^sub>t + lam * A\<^sub>t\<^sub>+\<^sub>1\<close> backwards
  (whatever \<open>gamma\<close> is), whitens the advantages, and returns, at every position of a
  sequence, the sum of its ground-truth scores. The tensors are rectangular with at
  least one row and one column.
\<close>

theorem gae_value_with_ground_truth:
  assumes "rect L (gt_scores data)" and "rect L (rm_scores data)" and "0 < L"
    and "gt_scores data \<noteq> []"
    and "length (rm_scores data) = length (gt_scores data)"
    and "length (attention_mask data) = length (gt_scores data)"
    and "rect (width (prompts data) + L) (attention_mask data)"
    and "prime_use_gt config"
  shows "compute_gae_value_returns W data eos_mask n config lam gamma =
           Inr (W (map (backward lam) (implicit_values data)) eos_mask,
                map (\<lambda>row. replicate L (sum_list row)) (gt_scores data))
       \<and> (\<forall>t < length vs.
            backward lam vs ! t =
              vs ! t + lam * (if Suc t < length vs then backward lam vs ! Suc t else 0))"
proof
  show "compute_gae_value_returns W data eos_mask n config lam gamma =
           Inr (W (map (backward lam) (implicit_values data)) eos_mask,
                map (\<lambda>row. replicate L (sum_list row)) (gt_scores data))"
    using assms by (rule gae_value_returns_gt)
  show "\<forall>t < length vs.
            backward lam vs ! t =
              vs ! t + lam * (if Suc t < length vs then backward lam vs ! Suc t else 0)"
    by (simp add: backward_recurrence)
qed

theorem gae_value_with_ground_truth_witness:
  "compute_gae_value_returns keep_advantages value_example
     [[True, True, False], [True, True, True]] 2 \<lparr>prime_use_gt = True\<rparr> 1 1
   = Inr ([[1, 0, 0], [5, 2, - 2]], [[1, 1, 1], [5, 5, 5]])"
  using gae_value_with_ground_truth
          [of 3 value_example "\<lparr>prime_use_gt = True\<rparr>" keep_advantages
              "[[True, True, False], [True, True, True]]" 2 1 1 "[]"]
  by (simp add: value_example_def rect_def width_def implicit_values_def closed_values_def
      valid_response_length_def keep_advantages_def numeral_3_eq_3)

text \<open>
  Claim C3 as it is stated, for every configuration: without \<^verbatim>\<open>prime_use_gt\<close> the value
  at the last valid position is not overwritten, and the advantages differ from those of
  the overwritten values.
\<close>

theorem gae_value_without_ground_truth:
  "compute_gae_value_returns keep_advantages value_example
     [[True, True, False], [True, True, True]] 2 \<lparr>prime_use_gt = False\<rparr> 1 1
   = Inr ([[3, 2, 0], [13, 10, 6]], [[1, 1, 1], [5, 5, 5]])
   \<and> map (backward 1) (implicit_values value_example) = [[1, 0, 0], [5, 2, - 2]]
   \<and> [[3, 2, 0], [13, 10, 6]] \<noteq> [[1, 0, 0], [5, 2, - 2 :: real]]"
  by code_simp


subsection \<open>The leave-one-out baseline\<close>

lemma masked_select_zeroed:
  "length row = length mrow \<Longrightarrow> masked_select (map2 keep_masked row mrow) mrow = masked_select row mrow"
  by (induction row mrow rule: list_induct2) (auto simp: masked_select_def keep_masked_def)

lemma masked_select_member:
  "length row = length mrow \<Longrightarrow> j < length row \<Longrightarrow> mrow ! j \<Longrightarrow> row ! j \<in> set (masked_select row mrow)"
proof (induction row mrow arbitrary: j rule: list_induct2)
  case Nil
  then show ?case by simp
next
  case (Cons x xs m ms)
  then show ?case by (cases j) (auto simp: masked_select_def)
qed

lemma nth_slice_update:
  assumes "length ms = length xs" and "a + n \<le> length xs" and "i < length xs"
  shows "(take a xs @ map2 f (take n (drop a xs)) (take n (drop a ms)) @ drop (a + n) xs) ! i =
         (if a \<le> i \<and> i < a + n then f (xs ! i) (ms ! i) else xs ! i)"
proof -
  have lt: "length (take a xs) = a" using assms by simp
  have lm: "length (map2 f (take n (drop a xs)) (take n (drop a ms))) = n" using assms by simp
  consider "i < a" | "a \<le> i" "i < a + n" | "a + n \<le> i" by linarith
  then show ?thesis
  proof cases
    case 1
    then show ?thesis using lt by (simp add: nth_append)
  next
    case 2
    then have ia: "i - a < n" and na: "\<not> i < a" by linarith+
    have "(take a xs @ map2 f (take n (drop a xs)) (take n (drop a ms)) @ drop (a + n) xs) ! i =
               (map2 f (take n (drop a xs)) (take n (drop a ms)) @ drop (a + n) xs) ! (i - a)"
      using na lt by (simp add: nth_append)
    also have "\<dots> = map2 f (take n (drop a xs)) (take n (drop a ms)) ! (i - a)"
      using ia lm by (simp only: nth_append if_True)
    also have "\<dots> = f (xs ! i) (ms ! i)"
      using 2 ia assms by simp
    finally show ?thesis using 2 by simp
  next
    case 3
    then have na: "\<not> i < a" and nn: "\<not> i - a < n" by linarith+
    have "(take a xs @ map2 f (take n (drop a xs)) (take n (drop a ms)) @ drop (a + n) xs) ! i =
               (map2 f (take n (drop a xs)) (take n (drop a ms)) @ drop (a + n) xs) ! (i - a)"
      using na lt by (simp add: nth_append)
    also have "\<dots> = drop (a + n) xs ! (i - a - n)"
      using nn lm by (simp only: nth_append if_False)
    also have "\<dots> = xs ! i" using 3 assms by simp
    finally show ?thesis using 3 by simp
  qed
qed

lemma rloo_corrected_nth:
  assumes "i < length reward"
  shows "rloo_corrected tsum n reward msk ! i =
         map2 (\<lambda>v b. if b then fsub (fmul v (rloo_scale n)) (loo_baseline tsum n reward msk (i div n))
                      else Finite 0) (reward ! i) (msk ! i)"
proof -
  let ?F = "\<lambda>i. map2 (\<lambda>v b. if b then fsub (fmul v (rloo_scale n))
                                         (loo_baseline tsum n reward msk (i div n))
                             else Finite 0) (reward ! i) (msk ! i)"
  have "map ?F [0..<length reward] ! i = ?F (0 + i)"
    by (rule nth_map_upt) (use assms in simp)
  then show ?thesis unfolding rloo_corrected_def by (simp only: add_0)
qed

lemma rloo_update_zeroed:
  "length row = length mrow \<Longrightarrow>
   rloo_update n b (map2 keep_masked row mrow) mrow =
   map2 (\<lambda>v m. if m then fsub (fmul v (rloo_scale n)) b else Finite 0) row mrow"
  by (induction row mrow rule: list_induct2) (auto simp: rloo_update_def keep_masked_def)

lemma same_shape_rows:
  "same_shape a b \<Longrightarrow> length a = length b \<and> (\<forall>i < length a. length (a ! i) = length (b ! i))"
  unfolding same_shape_def
  by (metis length_map nth_map)

lemma rloo_group_step:
  assumes n2: "2 \<le> n" and len: "length reward = k * n" and sh: "same_shape reward msk"
    and g: "g < k"
  shows "rloo_group tsum n (rloo_stage tsum n reward msk g) msk (g * n) =
         Inr (rloo_stage tsum n reward msk (Suc g))"
proof -
  let ?T = "rloo_stage tsum n reward msk g"
  let ?N = "length reward"
  from sh have lm: "length msk = ?N" and rows: "\<forall>i < ?N. length (reward ! i) = length (msk ! i)"
    using same_shape_rows by fastforce+
  have lT: "length ?T = ?N" by (simp add: rloo_stage_def)
  from g have "Suc g \<le> k" by simp
  then have "Suc g * n \<le> k * n" by (rule mult_le_mono1)
  then have fit: "g * n + n \<le> ?N" using len by (simp add: add.commute)
  have mean: "row_mean tsum ?T msk pos = masked_mean_reward tsum (reward ! pos) (msk ! pos)"
    if pos: "pos \<in> set [g * n..<g * n + n]" for pos
  proof -
    from pos fit have p: "pos < ?N" and ng: "\<not> pos < g * n" by auto
    then have T: "?T ! pos = map2 keep_masked (reward ! pos) (msk ! pos)"
      by (simp add: rloo_stage_def)
    from p rows have l: "length (reward ! pos) = length (msk ! pos)" by simp
    show ?thesis
      using p lT by (simp add: row_mean_def T masked_select_zeroed[OF l] masked_mean_reward_def)
  qed
  have means: "map (row_mean tsum ?T msk) [g * n..<g * n + n] =
               map (\<lambda>pos. masked_mean_reward tsum (reward ! pos) (msk ! pos)) [g * n..<g * n + n]"
    by (rule map_cong) (use mean in simp_all)
  let ?b = "loo_baseline tsum n reward msk g"
  let ?new = "take (g * n) ?T @ map2 (rloo_update n ?b) (take n (drop (g * n) ?T))
                (take n (drop (g * n) msk)) @ drop (g * n + n) ?T"
  have new: "?new = rloo_stage tsum n reward msk (Suc g)"
  proof (rule nth_equalityI)
    show "length ?new = length (rloo_stage tsum n reward msk (Suc g))"
      using lT lm fit by (simp add: rloo_stage_def)
  next
    fix i assume "i < length ?new"
    then have i: "i < ?N" using lT lm fit by simp
    have at: "?new ! i = (if g * n \<le> i \<and> i < g * n + n then rloo_update n ?b (?T ! i) (msk ! i)
                          else ?T ! i)"
      by (rule nth_slice_update) (use lT lm fit i in simp_all)
    show "?new ! i = rloo_stage tsum n reward msk (Suc g) ! i"
    proof (cases "g * n \<le> i \<and> i < g * n + n")
      case True
      then have d: "i div n = g" by (intro div_nat_eqI) (simp_all add: mult.commute)
      from True have T: "?T ! i = map2 keep_masked (reward ! i) (msk ! i)"
        using i by (simp add: rloo_stage_def)
      from i rows have l: "length (reward ! i) = length (msk ! i)" by simp
      have "?new ! i = map2 (\<lambda>v m. if m then fsub (fmul v (rloo_scale n)) ?b else Finite 0)
                         (reward ! i) (msk ! i)"
        unfolding at using True by (simp add: T rloo_update_zeroed[OF l])
      also have "\<dots> = rloo_corrected tsum n reward msk ! i"
        unfolding rloo_corrected_nth[OF i] d ..
      also have "\<dots> = rloo_stage tsum n reward msk (Suc g) ! i"
        using i True by (simp add: rloo_stage_def)
      finally show ?thesis .
    next
      case False
      then have "i < g * n \<or> g * n + n \<le> i" by linarith
      then have "?T ! i = rloo_stage tsum n reward msk (Suc g) ! i"
        using i by (auto simp: rloo_stage_def)
      moreover from False have "?new ! i = ?T ! i"
        unfolding at by (simp only: if_False)
      ultimately show ?thesis by simp
    qed
  qed
  from n2 have n1: "n \<noteq> 1" by simp
  show ?thesis
    unfolding rloo_group_def means
    using n1 new by (simp add: Let_def loo_baseline_def)
qed

lemma rloo_loop_stages:
  assumes n2: "2 \<le> n" and len: "length reward = k * n" and sh: "same_shape reward msk"
    and j: "j \<le> k"
  shows "rloo_loop tsum n msk (map (\<lambda>g. g * n) [j..<k]) (rloo_stage tsum n reward msk j) =
         Inr (rloo_stage tsum n reward msk k)"
  using j
proof (induction j rule: inc_induct)
  case base
  then show ?case by simp
next
  case (step g)
  have "rloo_loop tsum n msk (map (\<lambda>g. g * n) [g..<k]) (rloo_stage tsum n reward msk g) =
        rloo_loop tsum n msk (map (\<lambda>g. g * n) [Suc g..<k]) (rloo_stage tsum n reward msk (Suc g))"
    using step.hyps(2) rloo_group_step[OF n2 len sh step.hyps(2)]
    by (simp add: upt_conv_Cons)
  with step.IH show ?case by simp
qed

lemma rloo_stage_first:
  assumes "same_shape reward msk"
  shows "rloo_stage tsum n reward msk 0 = map2 (map2 keep_masked) reward msk"
proof (rule nth_equalityI)
  from assms have lm: "length msk = length reward" using same_shape_rows by fastforce
  show "length (rloo_stage tsum n reward msk 0) = length (map2 (map2 keep_masked) reward msk)"
    using lm by (simp add: rloo_stage_def)
  fix i assume "i < length (rloo_stage tsum n reward msk 0)"
  then have "i < length reward" by (simp add: rloo_stage_def)
  then show "rloo_stage tsum n reward msk 0 ! i = map2 (map2 keep_masked) reward msk ! i"
    using lm by (simp add: rloo_stage_def)
qed

lemma rloo_stage_last:
  assumes "length reward = k * n"
  shows "rloo_stage tsum n reward msk k = rloo_corrected tsum n reward msk"
proof -
  have "rloo_stage tsum n reward msk k =
        map (\<lambda>i. rloo_corrected tsum n reward msk ! i) [0..<length reward]"
    unfolding rloo_stage_def by (rule map_cong) (use assms in simp_all)
  also have "\<dots> = rloo_corrected tsum n reward msk"
    using map_nth[of "rloo_corrected tsum n reward msk"] by (simp add: rloo_corrected_def)
  finally show ?thesis .
qed

lemma masked_rloo_corrected:
  assumes n2: "2 \<le> n" and len: "length reward = k * n" and sh: "same_shape reward msk"
  shows "masked_rloo tsum n reward msk = Inr (rloo_corrected tsum n reward msk)"
proof -
  from n2 have n0: "0 < n" by simp
  have lz: "length (map2 (map2 keep_masked) reward msk) = k * n"
    using sh len same_shape_rows by fastforce
  have z: "zero_unmasked reward msk = Inr (map2 (map2 keep_masked) reward msk)"
    using sh by (simp add: zero_unmasked_def)
  have "masked_rloo tsum n reward msk =
        rloo_loop tsum n msk (py_range (length (map2 (map2 keep_masked) reward msk)) n)
          (map2 (map2 keep_masked) reward msk)"
    unfolding masked_rloo_def z using n0 by simp
  also have "\<dots> = rloo_loop tsum n msk (map (\<lambda>g. g * n) [0..<k]) (rloo_stage tsum n reward msk 0)"
    unfolding lz py_range_multiple[OF n0] rloo_stage_first[OF sh] ..
  also have "\<dots> = Inr (rloo_stage tsum n reward msk k)"
    using n2 len sh le0 by (rule rloo_loop_stages)
  finally show ?thesis by (simp add: rloo_stage_last[OF len])
qed

lemma rloo_equal_rewards:
  assumes n2: "2 \<le> n" and len: "length reward = k * n" and sh: "same_shape reward msk"
    and g: "g < k"
    and eq: "\<forall>i. g * n \<le> i \<and> i < g * n + n \<longrightarrow> masked_select (reward ! i) (msk ! i) = [x]"
    and i: "g * n \<le> i" "i < g * n + n"
  shows "rloo_corrected tsum n reward msk ! i =
         map (\<lambda>b. if b then equal_reward_residue tsum n x else Finite 0) (msk ! i)"
proof -
  from g have "Suc g \<le> k" by simp
  then have "Suc g * n \<le> k * n" by (rule mult_le_mono1)
  then have iN: "i < length reward" using len i by (simp add: add.commute)
  from i have d: "i div n = g" by (intro div_nat_eqI) (simp_all add: mult.commute)
  from sh iN have l: "length (reward ! i) = length (msk ! i)" using same_shape_rows by fastforce
  have "map (\<lambda>pos. masked_mean_reward tsum (reward ! pos) (msk ! pos)) [g * n..<g * n + n] =
        map (\<lambda>_. tensor_mean tsum [x]) [g * n..<g * n + n]"
    by (rule map_cong) (use eq in \<open>simp_all add: masked_mean_reward_def\<close>)
  also have "\<dots> = replicate n (tensor_mean tsum [x])"
    by (simp add: map_replicate_const)
  finally have means:
    "map (\<lambda>pos. masked_mean_reward tsum (reward ! pos) (msk ! pos)) [g * n..<g * n + n] =
     replicate n (tensor_mean tsum [x])" .
  have res: "fsub (fmul v (rloo_scale n)) (loo_baseline tsum n reward msk g) =
             equal_reward_residue tsum n x"
    if "v \<in> set (masked_select (reward ! i) (msk ! i))" for v
  proof -
    from that eq i have "v = x" by simp
    then show ?thesis unfolding loo_baseline_def means equal_reward_residue_def by simp
  qed
  let ?f = "\<lambda>v m. if m then fsub (fmul v (rloo_scale n)) (loo_baseline tsum n reward msk g)
                   else Finite 0"
  let ?h = "\<lambda>b. if b then equal_reward_residue tsum n x else Finite 0"
  have "map2 ?f (reward ! i) (msk ! i) = map ?h (msk ! i)"
  proof (rule nth_equalityI)
    show "length (map2 ?f (reward ! i) (msk ! i)) = length (map ?h (msk ! i))"
      using l by simp
    fix j assume "j < length (map2 ?f (reward ! i) (msk ! i))"
    then have j: "j < length (reward ! i)" using l by simp
    show "map2 ?f (reward ! i) (msk ! i) ! j = map ?h (msk ! i) ! j"
      using j l res[OF masked_select_member[OF l j]] by simp
  qed
  then show ?thesis unfolding rloo_corrected_nth[OF iN] d .
qed

lemma pow_up_unfold:
  "pow_up k b x = (if k = 0 then b else if x < 2 * b then b else pow_up (k - 1) (2 * b) x)"
  by (cases k) simp_all

lemma pow_down_unfold:
  "pow_down k b x = (if k = 0 then b else if b \<le> x then b else pow_down (k - 1) (b / 2) x)"
  by (cases k) simp_all

lemmas f32_eval = fl32_def fl64_def round_binary_def binade_def round_half_even_def Let_def
  pow_up_unfold pow_down_unfold f32_of_nat_def fsub_def rloo_scale_def tensor_mean_def fsum_def

lemma upt_4: "[0..<4] = [0, 1, 2, 3 :: nat]"
  by (simp add: upt_rec)

lemma replicate_4: "replicate 4 x = [x, x, x, x]"
  by (simp add: numeral_eq_Suc)

text \<open>
  Claim C1, as the source has it. For a batch of whole groups of \<open>n\<close> sequences (\<open>n\<close> at
  least 2), the estimator computes in float32, per group, the masked mean reward of each
  sequence, sums the means, takes the sum divided by \<open>n - 1\<close> as baseline, scales every
  masked reward by the float32 of \<open>n / (n - 1)\<close> and subtracts the baseline; the other
  entries are 0. This holds for \<^verbatim>\<open>masked_rloo\<close> and for a weighted source of \<^verbatim>\<open>compute_rloo_returns\<close>, whatever
  the order of the reductions. When every sequence of a group has a single masked position
  with the same reward \<open>x\<close>, every corrected reward of the group is the same float32, the
  rounded difference of the scaled \<open>x\<close> and the baseline; it is exactly 0 for \<open>x = 1\<close> and
  \<open>n = 4\<close>.
\<close>

theorem rloo_leave_one_out:
  assumes "2 \<le> n" and "length reward = k * n" and "same_shape reward msk"
  shows "masked_rloo tsum n reward msk = Inr (rloo_corrected tsum n reward msk)
       \<and> rloo_reward_source tsum n w reward msk =
           Inr (rloo_corrected tsum n (map (map (\<lambda>v. fmul v (fl32 w))) reward) msk)
       \<and> (g < k \<and> (\<forall>i. g * n \<le> i \<and> i < g * n + n
                        \<longrightarrow> masked_select (reward ! i) (msk ! i) = [x])
          \<longrightarrow> (\<forall>i. g * n \<le> i \<and> i < g * n + n
                        \<longrightarrow> rloo_corrected tsum n reward msk ! i =
                            map (\<lambda>b. if b then equal_reward_residue tsum n x else Finite 0)
                                (msk ! i)))
       \<and> equal_reward_residue fsum 4 (Finite 1) = Finite 0"
proof (intro conjI impI allI)
  show "masked_rloo tsum n reward msk = Inr (rloo_corrected tsum n reward msk)"
    using assms by (rule masked_rloo_corrected)
next
  let ?scaled = "map (map (\<lambda>v. fmul v (fl32 w))) reward"
  have "length ?scaled = k * n" using assms(2) by simp
  moreover have "same_shape ?scaled msk"
    using assms(3) by (simp add: same_shape_def comp_def)
  ultimately have "masked_rloo tsum n ?scaled msk = Inr (rloo_corrected tsum n ?scaled msk)"
    using assms(1) by (intro masked_rloo_corrected)
  then show "rloo_reward_source tsum n w reward msk = Inr (rloo_corrected tsum n ?scaled msk)"
    by (simp add: rloo_reward_source_def)
next
  fix i
  assume a: "g < k \<and> (\<forall>i. g * n \<le> i \<and> i < g * n + n
                        \<longrightarrow> masked_select (reward ! i) (msk ! i) = [x])"
    and i: "g * n \<le> i \<and> i < g * n + n"
  from a have g: "g < k"
    and eq: "\<forall>i. g * n \<le> i \<and> i < g * n + n \<longrightarrow> masked_select (reward ! i) (msk ! i) = [x]"
    by blast+
  from i have i1: "g * n \<le> i" and i2: "i < g * n + n" by blast+
  show "rloo_corrected tsum n reward msk ! i =
        map (\<lambda>b. if b then equal_reward_residue tsum n x else Finite 0) (msk ! i)"
    using assms(1,2,3) g eq i1 i2 by (rule rloo_equal_rewards)
next
  show "equal_reward_residue fsum 4 (Finite 1) = Finite 0"
    by (simp add: equal_reward_residue_def replicate_4 f32_eval)
qed

text \<open>
  The theorem at three batches: a group of four sequences with the reward 1 at one masked
  position each is corrected to 0; two groups of two sequences with several masked
  positions are corrected with the baselines 9/2 and 14, where the factor is 2 and
  nothing is rounded; a sequence without masked position makes the masked rewards of
  its own group nan and leaves the other group alone; and two equal rewards at the largest
  float32 overflow to nan, as does an infinite reward, next to which a finite reward
  becomes the negative infinity.
\<close>

theorem rloo_leave_one_out_witness:
  "masked_rloo fsum 4 [[Finite 0, Finite 1], [Finite 1, Finite 0], [Finite 0, Finite 1], [Finite 1, Finite 0]]
     [[False, True], [True, False], [False, True], [True, False]]
     = Inr [[Finite 0, Finite 0], [Finite 0, Finite 0], [Finite 0, Finite 0], [Finite 0, Finite 0]]
   \<and> masked_rloo fsum 2 [[Finite 1, Finite 2], [Finite 3, Finite 4], [Finite 5, Finite 6], [Finite 7, Finite 8]]
     [[True, False], [True, True], [False, True], [False, True]]
     = Inr [[Finite (- (5 / 2)), Finite 0], [Finite (3 / 2), Finite (7 / 2)],
            [Finite 0, Finite (- 2)], [Finite 0, Finite 2]]
   \<and> masked_rloo fsum 2 [[Finite 1], [Finite 2], [Finite 3], [Finite 4]]
     [[True], [False], [True], [True]]
     = Inr [[NaN], [Finite 0], [Finite (- 1)], [Finite 1]]
   \<and> masked_rloo fsum 2
       [[Finite 340282346638528859811704183484516925440],
        [Finite 340282346638528859811704183484516925440], [PInf], [Finite 1]]
       [[True], [True], [True], [True]]
     = Inr [[NaN], [NaN], [NaN], [NInf]]"
proof -
  let ?r1 = "[[Finite 0, Finite 1], [Finite 1, Finite 0], [Finite 0, Finite 1], [Finite 1, Finite 0]]"
  let ?m1 = "[[False, True], [True, False], [False, True], [True, False]]"
  let ?r2 = "[[Finite 1, Finite 2], [Finite 3, Finite 4], [Finite 5, Finite 6], [Finite 7, Finite 8]]"
  let ?m2 = "[[True, False], [True, True], [False, True], [False, True]]"
  let ?r3 = "[[Finite 1], [Finite 2], [Finite 3], [Finite 4]]"
  let ?m3 = "[[True], [False], [True], [True]]"
  let ?r4 = "[[Finite 340282346638528859811704183484516925440],
              [Finite 340282346638528859811704183484516925440], [PInf], [Finite 1]]"
  let ?m4 = "[[True], [True], [True], [True]]"
  have u: "[0..<2] = [0, 1 :: nat]" "[2..<4] = [2, 3 :: nat]"
    by (simp_all add: upt_rec)
  have s1: "same_shape ?r1 ?m1" and s2: "same_shape ?r2 ?m2" and s3: "same_shape ?r3 ?m3"
    and s4: "same_shape ?r4 ?m4"
    by (simp_all add: same_shape_def)
  have "masked_rloo fsum 4 ?r1 ?m1 = Inr (rloo_corrected fsum 4 ?r1 ?m1)"
    using rloo_leave_one_out[of 4 ?r1 1 ?m1 fsum 1 0 "Finite 1"] s1 by simp
  moreover have "rloo_corrected fsum 4 ?r1 ?m1 =
      [[Finite 0, Finite 0], [Finite 0, Finite 0], [Finite 0, Finite 0], [Finite 0, Finite 0]]"
    by (simp add: rloo_corrected_def loo_baseline_def masked_mean_reward_def masked_select_def
        upt_4 f32_eval)
  moreover have "masked_rloo fsum 2 ?r2 ?m2 = Inr (rloo_corrected fsum 2 ?r2 ?m2)"
    using rloo_leave_one_out[of 2 ?r2 2 ?m2 fsum 1 0 "Finite 1"] s2 by simp
  moreover have "rloo_corrected fsum 2 ?r2 ?m2 =
      [[Finite (- (5 / 2)), Finite 0], [Finite (3 / 2), Finite (7 / 2)],
       [Finite 0, Finite (- 2)], [Finite 0, Finite 2]]"
    by (simp add: rloo_corrected_def loo_baseline_def masked_mean_reward_def masked_select_def
        upt_4 u f32_eval)
  moreover have "masked_rloo fsum 2 ?r3 ?m3 = Inr (rloo_corrected fsum 2 ?r3 ?m3)"
    using rloo_leave_one_out[of 2 ?r3 2 ?m3 fsum 1 0 "Finite 1"] s3 by simp
  moreover have "rloo_corrected fsum 2 ?r3 ?m3 =
      [[NaN], [Finite 0], [Finite (- 1)], [Finite 1]]"
    by (simp add: rloo_corrected_def loo_baseline_def masked_mean_reward_def masked_select_def
        upt_4 u f32_eval)
  moreover have "masked_rloo fsum 2 ?r4 ?m4 = Inr (rloo_corrected fsum 2 ?r4 ?m4)"
    using rloo_leave_one_out[of 2 ?r4 2 ?m4 fsum 1 0 "Finite 1"] s4 by simp
  moreover have "rloo_corrected fsum 2 ?r4 ?m4 = [[NaN], [NaN], [NaN], [NInf]]"
    by (simp add: rloo_corrected_def loo_baseline_def masked_mean_reward_def masked_select_def
        upt_4 u f32_eval)
  ultimately show ?thesis by simp
qed

text \<open>
  Claim C1 as it is stated: equal rewards do not always cancel. The float32 nearest to 0.3
  is 5033165 / 2^24. For a group of four sequences that carry it at their single masked
  position, the means are that number, their sum is four times it, the baseline is the sum
  divided by 3 and rounded, 13421773 / 2^25, and the reward times the float32 of 4/3 is
  rounded to 13421774 / 2^25: every corrected reward is 2^-25 and not 0. In
  \<^verbatim>\<open>compute_rloo_returns\<close> the same happens to the reward 1 under the weight 5: the corrected
  rewards are 2^-21.
\<close>

theorem rloo_equal_rewards_residue:
  "fl32 (3 / 10) = Finite (5033165 / 16777216)
   \<and> masked_rloo fsum 4
       [[Finite (5033165 / 16777216)], [Finite (5033165 / 16777216)],
        [Finite (5033165 / 16777216)], [Finite (5033165 / 16777216)]]
       [[True], [True], [True], [True]]
     = Inr [[Finite (1 / 33554432)], [Finite (1 / 33554432)],
            [Finite (1 / 33554432)], [Finite (1 / 33554432)]]
   \<and> rloo_reward_source fsum 4 5 [[Finite 1], [Finite 1], [Finite 1], [Finite 1]]
       [[True], [True], [True], [True]]
     = Inr [[Finite (1 / 2097152)], [Finite (1 / 2097152)],
            [Finite (1 / 2097152)], [Finite (1 / 2097152)]]
   \<and> Finite (1 / 33554432) \<noteq> Finite 0"
proof (intro conjI)
  have u: "[0..<Suc 0] = [0 :: nat]"
    by simp
  show "fl32 (3 / 10) = Finite (5033165 / 16777216)"
    by (simp add: f32_eval)
  show "masked_rloo fsum 4
       [[Finite (5033165 / 16777216)], [Finite (5033165 / 16777216)],
        [Finite (5033165 / 16777216)], [Finite (5033165 / 16777216)]]
       [[True], [True], [True], [True]]
     = Inr [[Finite (1 / 33554432)], [Finite (1 / 33554432)],
            [Finite (1 / 33554432)], [Finite (1 / 33554432)]]"
    by (simp add: masked_rloo_def zero_unmasked_def same_shape_def keep_masked_def py_range_def
        rloo_group_def row_mean_def masked_select_def rloo_update_def upt_4 u f32_eval)
  show "rloo_reward_source fsum 4 5 [[Finite 1], [Finite 1], [Finite 1], [Finite 1]]
       [[True], [True], [True], [True]]
     = Inr [[Finite (1 / 2097152)], [Finite (1 / 2097152)],
            [Finite (1 / 2097152)], [Finite (1 / 2097152)]]"
    by (simp add: rloo_reward_source_def masked_rloo_def zero_unmasked_def same_shape_def
        keep_masked_def py_range_def rloo_group_def row_mean_def masked_select_def
        rloo_update_def upt_4 u f32_eval)
  show "Finite (1 / 33554432) \<noteq> Finite 0"
    by simp
qed

end
